theory Spec2Isabelle
  imports
    Main
    "HOL-Library.Char_ord"
    "HOL-Library.List_Lexorder"
    "HOL-Library.Product_Lexorder"
    "HOL-Library.Multiset"
begin

section \<open>Data model\<close>

text \<open>
  The consensus-set controller (package \<open>consensusset\<close>, second half of
  \<open>controllers/apps/clusterversion_controller.go\<close>) is embedded function by function.
  Go strings are HOL strings; with \<open>Char_ord\<close> and \<open>List_Lexorder\<close> the order on
  strings is the bytewise lexicographic one of \<open>strings.Compare\<close>.

  A Go panic and a returned \<open>error\<close> are both values of \<open>failure\<close>; a function that can
  panic or return an error has result type \<open>failure + 'a\<close>.
\<close>

datatype panic =
    NilPointerDereference
  | SliceBoundsOutOfRange
  | IndexOutOfRange
  | AssignmentToNilMap

datatype failure = Panic panic | Error string

text \<open>
  Modelled from the spec: the API types of package \<open>appsv1alpha1\<close> are declared outside
  \<open>src/\<close>. \<open>AccessMode\<close>, \<open>UpdateStrategy\<close> and \<open>WorkloadType\<close> are Go string types,
  so a value outside the named constants (the empty string among them) is possible; the
  named constants are the ones the spec lists (section 3).
\<close>

type_synonym AccessMode = string

definition None_AccessMode :: AccessMode where
  "None_AccessMode = ''None''"

definition Readonly :: AccessMode where
  "Readonly = ''Readonly''"

definition ReadWrite :: AccessMode where
  "ReadWrite = ''ReadWrite''"

type_synonym UpdateStrategy = string

definition SerialStrategy :: UpdateStrategy where
  "SerialStrategy = ''Serial''"

definition ParallelStrategy :: UpdateStrategy where
  "ParallelStrategy = ''Parallel''"

definition BestEffortParallelStrategy :: UpdateStrategy where
  "BestEffortParallelStrategy = ''BestEffortParallel''"

type_synonym WorkloadType = string

definition Consensus :: WorkloadType where
  "Consensus = ''Consensus''"

record ConsensusMember =
  Name :: string
  AccessMode :: AccessMode

text \<open>\<open>ConsensusMemberStatus\<close> has the fields \<open>Name\<close>, \<open>AccessMode\<close> and \<open>Pod\<close>.\<close>

record ConsensusMemberStatus = ConsensusMember +
  Pod :: string

text \<open>\<open>Learner\<close> is a pointer in Go: \<open>None\<close> is \<open>nil\<close>.\<close>

record ConsensusSetSpec =
  Leader :: ConsensusMember
  Followers :: "ConsensusMember list"
  Learner :: "ConsensusMember option"
  UpdateStrategy :: UpdateStrategy

text \<open>\<open>ConsensusSpec\<close> is a pointer in Go: \<open>None\<close> is \<open>nil\<close>.\<close>

record ClusterComponentDefinition =
  WorkloadType :: WorkloadType
  ConsensusSpec :: "ConsensusSetSpec option"

record ConsensusSetStatus =
  Leader_Status :: ConsensusMemberStatus
  Followers_Status :: "ConsensusMemberStatus list"
  Learner_Status :: "ConsensusMemberStatus option"

text \<open>
  Modelled from the spec: \<open>corev1.Pod\<close> and the helpers that read it
  (\<open>intctrlutil.GetParentNameAndOrdinal\<close>, \<open>util.GetPodRevision\<close>, \<open>util.PodIsReady\<close>) are
  outside \<open>src/\<close>. A pod is the spec's ReplicaObservation
  \<open>{name, ordinal, roleLabel, revision, ready, terminating}\<close>: \<open>RoleLabel\<close> is
  \<open>pod.Labels[RoleLabelKey]\<close> (the empty string when the label is missing) and
  \<open>Terminating\<close> is \<open>pod.DeletionTimestamp != nil\<close>.
\<close>

record Pod =
  Name_Pod :: string
  Ordinal :: int
  RoleLabel :: string
  Revision :: string
  Ready :: bool
  Terminating :: bool

type_synonym consensusRole = string

record consensusMemberExt =
  name :: string
  consensusRole :: consensusRole
  accessMode :: AccessMode
  podName :: string

definition roleLeader :: consensusRole where
  "roleLeader = ''Leader''"

definition roleFollower :: consensusRole where
  "roleFollower = ''Follower''"

definition roleLearner :: consensusRole where
  "roleLearner = ''Learner''"

definition leaderPriority :: int where
  "leaderPriority = 2 ^ 5"

definition followerReadWritePriority :: int where
  "followerReadWritePriority = 2 ^ 4"

definition followerReadonlyPriority :: int where
  "followerReadonlyPriority = 2 ^ 3"

definition followerNonePriority :: int where
  "followerNonePriority = 2 ^ 2"

definition learnerPriority :: int where
  "learnerPriority = 2 ^ 1"

definition emptyPriority :: int where
  "emptyPriority = 2 ^ 0"

section \<open>Role classification\<close>

text \<open>
  A Go \<open>map[string]int\<close> is a HOL map; reading a missing key gives the zero value, which
  is what \<open>priorityOf\<close> does for every \<open>rolePriorityMap[role]\<close> of the source.
\<close>

type_synonym rolePriorityMap = "string \<rightharpoonup> int"

definition priorityOf :: "rolePriorityMap \<Rightarrow> string \<Rightarrow> int" where
  "priorityOf rolePriorityMap role = (case rolePriorityMap role of None \<Rightarrow> 0 | Some v \<Rightarrow> v)"

text \<open>The body of the loop over the followers in \<open>ComposeRolePriorityMap\<close>.\<close>

definition followerPriority :: "ConsensusMember \<Rightarrow> rolePriorityMap \<Rightarrow> rolePriorityMap" where
  "followerPriority follower m =
     (if AccessMode follower = None_AccessMode then m(Name follower \<mapsto> followerNonePriority)
      else if AccessMode follower = Readonly then m(Name follower \<mapsto> followerReadonlyPriority)
      else if AccessMode follower = ReadWrite then m(Name follower \<mapsto> followerReadWritePriority)
      else m)"

text \<open>
  \<open>appsv1alpha1.DefaultLeader\<close> is declared outside \<open>src/\<close>; it is the first parameter.
  The component is passed by value, so the substitution of the default specification is
  local to this function.
\<close>

definition ComposeRolePriorityMap ::
  "ConsensusMember \<Rightarrow> ClusterComponentDefinition \<Rightarrow> rolePriorityMap" where
  "ComposeRolePriorityMap DefaultLeader component =
     (let spec = (case ConsensusSpec component of
                    None \<Rightarrow> \<lparr>Leader = DefaultLeader, Followers = [], Learner = None,
                             UpdateStrategy = ''''\<rparr>
                  | Some s \<Rightarrow> s);
          m0 = Map.empty('''' \<mapsto> emptyPriority);
          m1 = m0(Name (Leader spec) \<mapsto> leaderPriority);
          m2 = (case Learner spec of
                  None \<Rightarrow> m1
                | Some learner \<Rightarrow> m1(Name learner \<mapsto> learnerPriority))
      in fold followerPriority (Followers spec) m2)"

type_synonym roleMap = "string \<rightharpoonup> consensusMemberExt"

text \<open>
  The map is mutated in place in Go; here the new map is returned. The \<open>roleMap == nil\<close>
  guard has no branch: the only caller passes a map it has just made.
\<close>

definition putConsensusMemberExt ::
  "roleMap \<Rightarrow> string \<Rightarrow> consensusRole \<Rightarrow> AccessMode \<Rightarrow> roleMap" where
  "putConsensusMemberExt roleMap nm role am =
     (if nm = '''' \<or> role = '''' \<or> am = '''' then roleMap
      else roleMap(nm \<mapsto> \<lparr>name = nm, consensusRole = role, accessMode = am, podName = ''''\<rparr>))"

text \<open>
  \<open>componentDef.ConsensusSpec\<close> is dereferenced with no nil check: a nil specification
  panics.
\<close>

definition composeConsensusRoleMap :: "ClusterComponentDefinition \<Rightarrow> failure + roleMap" where
  "composeConsensusRoleMap componentDef =
     (case ConsensusSpec componentDef of
        None \<Rightarrow> Inl (Panic NilPointerDereference)
      | Some spec \<Rightarrow>
          (let m0 = putConsensusMemberExt Map.empty (Name (Leader spec)) roleLeader
                      (AccessMode (Leader spec));
               m1 = fold (\<lambda>follower m.
                            putConsensusMemberExt m (Name follower) roleFollower
                              (AccessMode follower))
                      (Followers spec) m0;
               m2 = (case Learner spec of
                       None \<Rightarrow> m1
                     | Some learner \<Rightarrow>
                         putConsensusMemberExt m1 (Name learner) roleLearner
                           (AccessMode learner))
           in Inr m2))"

section \<open>Consensus status\<close>

text \<open>
  \<open>util.ComponentStatusDefaultPodName\<close> is declared outside \<open>src/\<close>; it is the parameter
  \<open>defaultPodName\<close> of the functions that use it. The status is mutated through a pointer
  in Go; here each function returns the new status, next to the boolean the Go function
  returns.
\<close>

definition setConsensusSetStatusLeader ::
  "ConsensusSetStatus \<Rightarrow> consensusMemberExt \<Rightarrow> ConsensusSetStatus \<times> bool" where
  "setConsensusSetStatusLeader consensusSetStatus memberExt =
     (if Pod (Leader_Status consensusSetStatus) = podName memberExt
      then (consensusSetStatus, False)
      else (consensusSetStatus\<lparr>Leader_Status :=
              \<lparr>Name = name memberExt, AccessMode = accessMode memberExt,
               Pod = podName memberExt\<rparr>\<rparr>, True))"

text \<open>
  \<open>sort.SliceStable\<close> with the comparison \<open>strings.Compare(fi.Pod, fj.Pod) < 0\<close> is the
  stable sort by the key \<open>Pod\<close>.
\<close>

definition setConsensusSetStatusFollower ::
  "ConsensusSetStatus \<Rightarrow> consensusMemberExt \<Rightarrow> ConsensusSetStatus \<times> bool" where
  "setConsensusSetStatusFollower consensusSetStatus memberExt =
     (if list_ex (\<lambda>member. Pod member = podName memberExt) (Followers_Status consensusSetStatus)
      then (consensusSetStatus, False)
      else (consensusSetStatus\<lparr>Followers_Status :=
              sort_key Pod (Followers_Status consensusSetStatus @
                [\<lparr>Name = name memberExt, AccessMode = accessMode memberExt,
                  Pod = podName memberExt\<rparr>])\<rparr>, True))"

definition setConsensusSetStatusLearner ::
  "ConsensusSetStatus \<Rightarrow> consensusMemberExt \<Rightarrow> ConsensusSetStatus \<times> bool" where
  "setConsensusSetStatusLearner consensusSetStatus memberExt =
     (let learner = (case Learner_Status consensusSetStatus of
                       None \<Rightarrow> \<lparr>Name = '''', AccessMode = '''', Pod = ''''\<rparr>
                     | Some l \<Rightarrow> l)
      in if Pod learner = podName memberExt
         then (consensusSetStatus\<lparr>Learner_Status := Some learner\<rparr>, False)
         else (consensusSetStatus\<lparr>Learner_Status :=
                 Some \<lparr>Name = name memberExt, AccessMode = accessMode memberExt,
                       Pod = podName memberExt\<rparr>\<rparr>, True))"

text \<open>
  The follower loop of \<open>resetConsensusSetStatusRole\<close>:
  \<^verbatim>\<open>
  for index, member := range consensusSetStatus.Followers {
      if member.Pod == podName {
          consensusSetStatus.Followers = append(consensusSetStatus.Followers[:index],
                                                consensusSetStatus.Followers[index+1:]...)
      }
  }
  \<close>
  \<open>range\<close> evaluates the slice once, so the loop runs over the \<open>n\<close> indices of the
  original slice and reads \<open>member\<close> from the backing array \<open>arr\<close>, which the \<open>append\<close>
  shifts in place; \<open>len\<close> is the current length of the \<open>Followers\<close> field. The slice
  expression \<open>Followers[index+1:]\<close> panics when \<open>index + 1\<close> exceeds that length.
\<close>

function resetFollowersLoop ::
  "string \<Rightarrow> nat \<Rightarrow> nat \<Rightarrow> ConsensusMemberStatus list \<Rightarrow> nat
     \<Rightarrow> failure + ConsensusMemberStatus list" where
  "resetFollowersLoop pod n index arr len =
     (if index < n then
        (if Pod (arr ! index) = pod then
           (if len < index + 1 then Inl (Panic SliceBoundsOutOfRange)
            else resetFollowersLoop pod n (index + 1)
                   (take index arr @ drop (index + 1) (take len arr) @ drop (len - 1) arr)
                   (len - 1))
         else resetFollowersLoop pod n (index + 1) arr len)
      else Inr (take len arr))"
  by pat_completeness auto
termination
  by (relation "measure (\<lambda>(pod, n, index, arr, len). n - index)") auto

definition resetConsensusSetStatusRole ::
  "string \<Rightarrow> ConsensusSetStatus \<Rightarrow> string \<Rightarrow> failure + ConsensusSetStatus" where
  "resetConsensusSetStatusRole defaultPodName consensusSetStatus pod =
     (let s1 = (if Pod (Leader_Status consensusSetStatus) = pod
                then consensusSetStatus\<lparr>Leader_Status :=
                       \<lparr>Name = '''', AccessMode = None_AccessMode, Pod = defaultPodName\<rparr>\<rparr>
                else consensusSetStatus)
      in case resetFollowersLoop pod (length (Followers_Status s1)) 0 (Followers_Status s1)
                (length (Followers_Status s1)) of
           Inl e \<Rightarrow> Inl e
         | Inr followers \<Rightarrow>
             (let s2 = s1\<lparr>Followers_Status := followers\<rparr>
              in Inr (case Learner_Status s2 of
                        None \<Rightarrow> s2
                      | Some learner \<Rightarrow>
                          if Pod learner = pod then s2\<lparr>Learner_Status := None\<rparr> else s2)))"

definition setConsensusSetStatusRole ::
  "string \<Rightarrow> ConsensusSetStatus \<Rightarrow> ClusterComponentDefinition \<Rightarrow> string \<Rightarrow> string
     \<Rightarrow> failure + ConsensusSetStatus \<times> bool" where
  "setConsensusSetStatusRole defaultPodName consensusSetStatus componentDef role pod =
     (case composeConsensusRoleMap componentDef of
        Inl e \<Rightarrow> Inl e
      | Inr roleMap \<Rightarrow>
          (case roleMap role of
             None \<Rightarrow> Inr (consensusSetStatus, False)
           | Some found \<Rightarrow>
               (let memberExt = found\<lparr>podName := pod\<rparr>
                in case resetConsensusSetStatusRole defaultPodName consensusSetStatus
                          (podName memberExt) of
                     Inl e \<Rightarrow> Inl e
                   | Inr s \<Rightarrow>
                       if consensusRole memberExt = roleLeader
                         then Inr (setConsensusSetStatusLeader s memberExt)
                       else if consensusRole memberExt = roleFollower
                         then Inr (setConsensusSetStatusFollower s memberExt)
                       else if consensusRole memberExt = roleLearner
                         then Inr (setConsensusSetStatusLearner s memberExt)
                       else Inr (s, False))))"

text \<open>
  The status pointer is never nil at the call site, so the \<open>consensusSetStatus == nil\<close>
  guard has no branch. The boolean of \<open>setConsensusSetStatusRole\<close> is discarded.
\<close>

fun setConsensusSetStatusRoles ::
  "string \<Rightarrow> ConsensusSetStatus \<Rightarrow> ClusterComponentDefinition \<Rightarrow> Pod list
     \<Rightarrow> failure + ConsensusSetStatus" where
  "setConsensusSetStatusRoles defaultPodName consensusSetStatus componentDef [] =
     Inr consensusSetStatus"
| "setConsensusSetStatusRoles defaultPodName consensusSetStatus componentDef (pod # pods) =
     (if \<not> Ready pod
      then setConsensusSetStatusRoles defaultPodName consensusSetStatus componentDef pods
      else case setConsensusSetStatusRole defaultPodName consensusSetStatus componentDef
                  (RoleLabel pod) (Name_Pod pod) of
             Inl e \<Rightarrow> Inl e
           | Inr (s, needUpdate) \<Rightarrow>
               setConsensusSetStatusRoles defaultPodName s componentDef pods)"

section \<open>Update plan\<close>

text \<open>
  Modelled from the spec: \<open>util.Plan\<close> and \<open>util.Step\<close> are declared outside \<open>src/\<close>; the
  code under \<open>src/\<close> uses a step's \<open>Obj\<close> and its \<open>NextSteps\<close> (section 9 of the spec: a
  pointer-linked step tree where the first child continues the chain and the siblings are
  one batch). \<open>Obj\<close> is an \<open>interface{}\<close> that holds a pod or nothing.

  Every step is allocated once and linked into one \<open>NextSteps\<close> slice, so the steps form
  a tree under \<open>plan.Start\<close>, and a \<open>*Step\<close> is the path of child indices that leads to
  it from \<open>plan.Start\<close>. A pointer of the source always points to a step of the plan:
  \<open>stepAt\<close> and \<open>updateStepAt\<close> are applied to the paths the generators build, each
  of which ends at a step that has just been linked.
\<close>

datatype Step = Step (Obj: "Pod option") (NextSteps: "Step list")

type_synonym stepRef = "nat list"

fun stepAt :: "stepRef \<Rightarrow> Step \<Rightarrow> Step" where
  "stepAt [] s = s"
| "stepAt (i # ref) s = stepAt ref (NextSteps s ! i)"

fun updateStepAt :: "stepRef \<Rightarrow> (Step \<Rightarrow> Step) \<Rightarrow> Step \<Rightarrow> Step" where
  "updateStepAt [] f s = f s"
| "updateStepAt (i # ref) f s =
     Step (Obj s) ((NextSteps s)[i := updateStepAt ref f (NextSteps s ! i)])"

text \<open>
  The three statements every loop of the plan generators repeats:
  \<^verbatim>\<open>
  nextStep := &util.Step{}
  nextStep.Obj = pod
  start.NextSteps = append(start.NextSteps, nextStep)
  \<close>
\<close>

definition appendNextStep :: "stepRef \<Rightarrow> Pod \<Rightarrow> Step \<Rightarrow> Step" where
  "appendNextStep start pod plan =
     updateStepAt start (\<lambda>s. Step (Obj s) (NextSteps s @ [Step (Some pod) []])) plan"

text \<open>\<open>if len(start.NextSteps) > 0 { start = start.NextSteps[0] }\<close>\<close>

definition advanceStart :: "stepRef \<Rightarrow> Step \<Rightarrow> stepRef" where
  "advanceStart start plan =
     (if length (NextSteps (stepAt start plan)) > 0 then start @ [0] else start)"

text \<open>
  \<open>SortPods\<close>: \<open>sort.SliceStable\<close> with the comparison \<open>podLess\<close>, which is the strict
  lexicographic order on the key (priority, ordinal); the result is the stable sort by
  that key.
\<close>

definition podLess :: "rolePriorityMap \<Rightarrow> Pod \<Rightarrow> Pod \<Rightarrow> bool" where
  "podLess rolePriorityMap podI podJ =
     (if priorityOf rolePriorityMap (RoleLabel podI) = priorityOf rolePriorityMap (RoleLabel podJ)
      then Ordinal podI < Ordinal podJ
      else priorityOf rolePriorityMap (RoleLabel podI) < priorityOf rolePriorityMap (RoleLabel podJ))"

definition podKey :: "rolePriorityMap \<Rightarrow> Pod \<Rightarrow> int \<times> int" where
  "podKey rolePriorityMap pod = (priorityOf rolePriorityMap (RoleLabel pod), Ordinal pod)"

definition SortPods :: "Pod list \<Rightarrow> rolePriorityMap \<Rightarrow> Pod list" where
  "SortPods pods rolePriorityMap = sort_key (podKey rolePriorityMap) pods"

text \<open>\<open>generateConsensusParallelPlan\<close>: every pod is appended to \<open>plan.Start\<close>.\<close>

definition generateConsensusParallelPlan :: "Step \<Rightarrow> Pod list \<Rightarrow> Step" where
  "generateConsensusParallelPlan plan pods = fold (appendNextStep []) pods plan"

text \<open>
  \<open>generateConsensusSerialPlan\<close>: after each append \<open>start = nextStep\<close>, the step that has
  just become the last element of \<open>start.NextSteps\<close>.
\<close>

fun serialPlanLoop :: "stepRef \<Rightarrow> Pod list \<Rightarrow> Step \<Rightarrow> Step" where
  "serialPlanLoop start [] plan = plan"
| "serialPlanLoop start (pod # pods) plan =
     serialPlanLoop (start @ [length (NextSteps (stepAt start plan))]) pods
       (appendNextStep start pod plan)"

definition generateConsensusSerialPlan :: "Step \<Rightarrow> Pod list \<Rightarrow> Step" where
  "generateConsensusSerialPlan plan pods = serialPlanLoop [] pods plan"

text \<open>
  The first loop of \<open>generateConsensusBestEffortParallelPlan\<close>: the pods of priority at
  most \<open>learnerPriority\<close> are appended to \<open>start\<close> and counted in \<open>index\<close>.
\<close>

fun appendUpToLearner ::
  "stepRef \<Rightarrow> rolePriorityMap \<Rightarrow> Pod list \<Rightarrow> Step \<Rightarrow> nat \<Rightarrow> Step \<times> nat" where
  "appendUpToLearner start rolePriorityMap [] plan index = (plan, index)"
| "appendUpToLearner start rolePriorityMap (pod # pods) plan index =
     (if priorityOf rolePriorityMap (RoleLabel pod) \<le> learnerPriority
      then appendUpToLearner start rolePriorityMap pods (appendNextStep start pod plan) (index + 1)
      else appendUpToLearner start rolePriorityMap pods plan index)"

text \<open>
  \<open>for i := 0; i < end; i++ { ... podList[i] ... }\<close>, called with the indices
  \<open>[0..<end]\<close>; an index outside the slice panics. A slice expression \<open>xs[k:]\<close> panics
  when \<open>k\<close> exceeds the length.
\<close>

fun appendByIndex :: "stepRef \<Rightarrow> Pod list \<Rightarrow> nat list \<Rightarrow> Step \<Rightarrow> failure + Step" where
  "appendByIndex start podList [] plan = Inr plan"
| "appendByIndex start podList (i # is) plan =
     (if i < length podList
      then appendByIndex start podList is (appendNextStep start (podList ! i) plan)
      else Inl (Panic IndexOutOfRange))"

definition sliceFrom :: "'a list \<Rightarrow> nat \<Rightarrow> failure + 'a list" where
  "sliceFrom xs k = (if k \<le> length xs then Inr (drop k xs) else Inl (Panic SliceBoundsOutOfRange))"

definition generateConsensusBestEffortParallelPlan ::
  "Step \<Rightarrow> Pod list \<Rightarrow> rolePriorityMap \<Rightarrow> failure + Step" where
  "generateConsensusBestEffortParallelPlan plan pods rolePriorityMap =
     (let start0 = [];
          (plan1, index) = appendUpToLearner start0 rolePriorityMap pods plan 0;
          start1 = advanceStart start0 plan1
      in case sliceFrom pods index of
           Inl e \<Rightarrow> Inl e
         | Inr podList1 \<Rightarrow>
             (let followerCount =
                    length (filter (\<lambda>pod. priorityOf rolePriorityMap (RoleLabel pod) < leaderPriority)
                              podList1);
                  end1 = followerCount div 2
              in case appendByIndex start1 podList1 [0..<end1] plan1 of
                   Inl e \<Rightarrow> Inl e
                 | Inr plan2 \<Rightarrow>
                     (let start2 = advanceStart start1 plan2
                      in case sliceFrom podList1 end1 of
                           Inl e \<Rightarrow> Inl e
                         | Inr podList2 \<Rightarrow>
                             (let end2 = followerCount - end1
                              in case appendByIndex start2 podList2 [0..<end2] plan2 of
                                   Inl e \<Rightarrow> Inl e
                                 | Inr plan3 \<Rightarrow>
                                     (let start3 = advanceStart start2 plan3
                                      in case sliceFrom podList2 end2 of
                                           Inl e \<Rightarrow> Inl e
                                         | Inr podList3 \<Rightarrow>
                                             Inr (fold (appendNextStep start3) podList3
                                                    plan3))))))"

text \<open>
  \<open>generateConsensusUpdatePlan\<close> returns the plan whose \<open>Start\<close> is the step built here;
  its \<open>WalkFunc\<close> is the function \<open>WalkFunc\<close> below. The \<open>switch\<close> reads
  \<open>component.ConsensusSpec.UpdateStrategy\<close> of the caller's component, whose nil
  specification \<open>ComposeRolePriorityMap\<close> has not replaced; it has no default case.
\<close>

definition generateConsensusUpdatePlan ::
  "ConsensusMember \<Rightarrow> Pod list \<Rightarrow> ClusterComponentDefinition \<Rightarrow> failure + Step" where
  "generateConsensusUpdatePlan DefaultLeader pods component =
     (let plan = Step None [];
          rolePriorityMap = ComposeRolePriorityMap DefaultLeader component;
          sorted_pods = SortPods pods rolePriorityMap
      in case ConsensusSpec component of
           None \<Rightarrow> Inl (Panic NilPointerDereference)
         | Some spec \<Rightarrow>
             if UpdateStrategy spec = SerialStrategy
               then Inr (generateConsensusSerialPlan plan sorted_pods)
             else if UpdateStrategy spec = ParallelStrategy
               then Inr (generateConsensusParallelPlan plan sorted_pods)
             else if UpdateStrategy spec = BestEffortParallelStrategy
               then generateConsensusBestEffortParallelPlan plan sorted_pods rolePriorityMap
             else Inr plan)"

section \<open>The cluster around the controller\<close>

text \<open>
  The controller reads and writes the cluster through \<open>client.Client\<close> and the helpers
  of package \<open>util\<close>, all outside \<open>src/\<close>. What each call returns is an input of the
  model (a field of \<open>client\<close>); what the controller asks the cluster to do is recorded in
  the \<open>world\<close>:
  \<^item> \<open>clusterStatus\<close> is the persisted
    \<open>cluster.Status.Components[componentName].ConsensusSetStatus\<close> (a pointer), which a
    pass reads as \<open>oldConsensusSetStatus\<close> and a successful status patch replaces;
  \<^item> \<open>statusPatches\<close> are the statuses sent by \<open>cli.Status().Patch\<close>, in order;
  \<^item> \<open>configPatches\<close> are the config maps sent by \<open>cli.Patch\<close>, in order;
  \<^item> \<open>deletedPods\<close> are the pods sent to \<open>cli.Delete\<close>, in order.
\<close>

text \<open>\<open>Data\<close> is a Go map that may be nil (\<open>None\<close>).\<close>

record ConfigMap =
  Name_ConfigMap :: string
  Data :: "(string \<rightharpoonup> string) option"

datatype deleteResult = Deleted | NotFound | DeleteFailed string

record client =
  getComponentDef :: "failure + ClusterComponentDefinition option"
  getPodList :: "failure + Pod list"
  statusPatchError :: "string option"
  listConfigMaps :: "failure + ConfigMap list"
  configPatchError :: "ConfigMap \<Rightarrow> string option"
  deletePod :: "Pod \<Rightarrow> deleteResult"

record world =
  clusterStatus :: "ConsensusSetStatus option"
  statusPatches :: "ConsensusSetStatus list"
  configPatches :: "ConfigMap list"
  deletedPods :: "Pod list"

text \<open>
  Modelled from the spec: \<open>appsv1.StatefulSet\<close> is declared outside \<open>src/\<close>; these are the
  fields the handler reads. \<open>Replicas\<close> is \<open>stsObj.Spec.Replicas\<close>, a pointer.
\<close>

record StatefulSet =
  ComponentLabel :: string
  Generation :: int
  ObservedGeneration :: int
  Replicas :: "int option"
  UpdateRevision :: string

section \<open>Walking the plan\<close>

text \<open>
  The \<open>WalkFunc\<close> closure of \<open>generateConsensusUpdatePlan\<close>. The boolean is true when the
  pod is not yet settled. \<open>cli.Delete\<close> is recorded in the world whatever it returns.
\<close>

definition WalkFunc ::
  "client \<Rightarrow> StatefulSet \<Rightarrow> world \<Rightarrow> Pod option \<Rightarrow> world \<times> (failure + bool)" where
  "WalkFunc cli stsObj w obj =
     (case obj of
        None \<Rightarrow> (w, Inl (Error ''wrong type: obj not Pod''))
      | Some pod \<Rightarrow>
          if Terminating pod then (w, Inr True)
          else if Revision pod = UpdateRevision stsObj then (w, Inr (\<not> Ready pod))
          else (let w' = w\<lparr>deletedPods := deletedPods w @ [pod]\<rparr>
                in case deletePod cli pod of
                     DeleteFailed err \<Rightarrow> (w', Inl (Error err))
                   | _ \<Rightarrow> (w', Inr True)))"

text \<open>
  Modelled from the spec: \<open>Plan.WalkOneStep\<close> is defined outside \<open>src/\<close>. Section 4.4:
  every replica of the current batch is classified; an error aborts at once; if every
  replica of the batch is settled the walk goes on with the next batch (the successors
  of the batch's first step) in the same call; it stops at the first batch that is not
  fully settled, or when the plan is exhausted, and reports completion only then.
\<close>

fun walkBatch ::
  "client \<Rightarrow> StatefulSet \<Rightarrow> world \<Rightarrow> Step list \<Rightarrow> bool \<Rightarrow> world \<times> (failure + bool)" where
  "walkBatch cli stsObj w [] shouldStop = (w, Inr shouldStop)"
| "walkBatch cli stsObj w (step # steps) shouldStop =
     (case WalkFunc cli stsObj w (Obj step) of
        (w', Inl e) \<Rightarrow> (w', Inl e)
      | (w', Inr walked) \<Rightarrow> walkBatch cli stsObj w' steps (shouldStop \<or> walked))"

fun WalkOneStep :: "client \<Rightarrow> StatefulSet \<Rightarrow> world \<Rightarrow> Step \<Rightarrow> world \<times> (failure + bool)" where
  "WalkOneStep cli stsObj w (Step obj []) = (w, Inr True)"
| "WalkOneStep cli stsObj w (Step obj (step # steps)) =
     (case walkBatch cli stsObj w (step # steps) False of
        (w', Inl e) \<Rightarrow> (w', Inl e)
      | (w', Inr shouldStop) \<Rightarrow>
          if shouldStop then (w', Inr False) else WalkOneStep cli stsObj w' step)"

section \<open>Config propagation\<close>

text \<open>
  The loop over the pods in \<open>updateConsensusRoleInfo\<close>. The role map is composed anew for
  every pod, so a nil specification panics only when there is a pod. The \<open>switch\<close> has no
  case for a role other than leader and follower that does anything.
\<close>

fun consensusRoleInfo ::
  "ClusterComponentDefinition \<Rightarrow> Pod list \<Rightarrow> string \<Rightarrow> string \<Rightarrow> failure + string \<times> string" where
  "consensusRoleInfo componentDef [] leader followers = Inr (leader, followers)"
| "consensusRoleInfo componentDef (pod # pods) leader followers =
     (case composeConsensusRoleMap componentDef of
        Inl e \<Rightarrow> Inl e
      | Inr roleMap \<Rightarrow>
          (case roleMap (RoleLabel pod) of
             None \<Rightarrow> consensusRoleInfo componentDef pods leader followers
           | Some memberExt \<Rightarrow>
               if consensusRole memberExt = roleLeader
                 then consensusRoleInfo componentDef pods (Name_Pod pod) followers
               else if consensusRole memberExt = roleFollower
                 then consensusRoleInfo componentDef pods leader
                        ((if length followers > 0 then followers @ '','' else followers)
                           @ Name_Pod pod)
               else consensusRoleInfo componentDef pods leader followers))"

text \<open>
  \<open>strings.ToUpper\<close> on the bytes of an ASCII string (a component name is a DNS label):
  the letters \<open>a\<close> to \<open>z\<close> move to \<open>A\<close> to \<open>Z\<close>, every other byte stays.
\<close>

definition ToUpper :: "string \<Rightarrow> string" where
  "ToUpper s =
     map (\<lambda>c. if CHR ''a'' \<le> c \<and> c \<le> CHR ''z'' then char_of (of_char c - (32::nat)) else c) s"

definition leaderKey :: "string \<Rightarrow> string" where
  "leaderKey componentName = ''KB_'' @ ToUpper componentName @ ''_LEADER''"

definition followersKey :: "string \<Rightarrow> string" where
  "followersKey componentName = ''KB_'' @ ToUpper componentName @ ''_FOLLOWERS''"

text \<open>
  The loop over \<open>configList.Items\<close>: writing into a nil \<open>Data\<close> map panics; the patched
  config map is sent to \<open>cli.Patch\<close>, whose error ends the loop.
\<close>

fun patchConfigMaps ::
  "client \<Rightarrow> string \<Rightarrow> string \<Rightarrow> string \<Rightarrow> ConfigMap list \<Rightarrow> world
     \<Rightarrow> world \<times> (failure + unit)" where
  "patchConfigMaps cli componentName leader followers [] w = (w, Inr ())"
| "patchConfigMaps cli componentName leader followers (config # configs) w =
     (case Data config of
        None \<Rightarrow> (w, Inl (Panic AssignmentToNilMap))
      | Some d \<Rightarrow>
          (let config' = config\<lparr>Data := Some (d(leaderKey componentName \<mapsto> leader,
                                                 followersKey componentName \<mapsto> followers))\<rparr>;
               w' = w\<lparr>configPatches := configPatches w @ [config']\<rparr>
           in case configPatchError cli config' of
                Some err \<Rightarrow> (w', Inl (Error err))
              | None \<Rightarrow> patchConfigMaps cli componentName leader followers configs w'))"

definition updateConsensusRoleInfo ::
  "client \<Rightarrow> world \<Rightarrow> ClusterComponentDefinition \<Rightarrow> string \<Rightarrow> Pod list
     \<Rightarrow> world \<times> (failure + unit)" where
  "updateConsensusRoleInfo cli w componentDef componentName pods =
     (case consensusRoleInfo componentDef pods '''' '''' of
        Inl e \<Rightarrow> (w, Inl e)
      | Inr (leader, followers) \<Rightarrow>
          (case listConfigMaps cli of
             Inl e \<Rightarrow> (w, Inl e)
           | Inr items \<Rightarrow> patchConfigMaps cli componentName leader followers items w))"

section \<open>The update handler\<close>

text \<open>The initial status of a pass (lines 359 to 365 of the source).\<close>

definition initialConsensusSetStatus :: "string \<Rightarrow> ConsensusSetStatus" where
  "initialConsensusSetStatus defaultPodName =
     \<lparr>Leader_Status = \<lparr>Name = '''', AccessMode = None_AccessMode, Pod = defaultPodName\<rparr>,
      Followers_Status = [],
      Learner_Status = None\<rparr>"

text \<open>
  The status part of \<open>handleConsensusSetUpdate\<close> (lines 348 to 382): the new status is
  computed from the initial one, compared with the old one by \<open>cmp.Equal\<close> (here HOL
  equality, a nil old status being different from every new one), patched when it
  differs, and propagated to the config maps when the patch has succeeded.
\<close>

definition reconcileConsensusSetStatus ::
  "string \<Rightarrow> client \<Rightarrow> world \<Rightarrow> ClusterComponentDefinition \<Rightarrow> string \<Rightarrow> Pod list
     \<Rightarrow> world \<times> (failure + unit)" where
  "reconcileConsensusSetStatus defaultPodName cli w component componentName pods =
     (let oldConsensusSetStatus = clusterStatus w
      in case setConsensusSetStatusRoles defaultPodName
                (initialConsensusSetStatus defaultPodName) component pods of
           Inl e \<Rightarrow> (w, Inl e)
         | Inr newConsensusSetStatus \<Rightarrow>
             if Some newConsensusSetStatus \<noteq> oldConsensusSetStatus then
               (let w1 = w\<lparr>statusPatches := statusPatches w @ [newConsensusSetStatus]\<rparr>
                in case statusPatchError cli of
                     Some err \<Rightarrow> (w1, Inl (Error err))
                   | None \<Rightarrow>
                       updateConsensusRoleInfo cli
                         (w1\<lparr>clusterStatus := Some newConsensusSetStatus\<rparr>)
                         component componentName pods)
             else (w, Inr ()))"

text \<open>
  \<open>handleConsensusSetUpdate\<close>. \<open>getComponentDef cli\<close> is what
  \<open>util.GetComponentDefByCluster\<close> returns and \<open>getPodList cli\<close> what
  \<open>util.GetPodListByStatefulSet\<close> returns. The result \<open>Inr b\<close> is the Go \<open>(b, nil)\<close>.
\<close>

definition handleConsensusSetUpdate ::
  "string \<Rightarrow> ConsensusMember \<Rightarrow> client \<Rightarrow> world \<Rightarrow> StatefulSet \<Rightarrow> world \<times> (failure + bool)" where
  "handleConsensusSetUpdate defaultPodName DefaultLeader cli w stsObj =
     (case getComponentDef cli of
        Inl e \<Rightarrow> (w, Inl e)
      | Inr None \<Rightarrow> (w, Inr True)
      | Inr (Some component) \<Rightarrow>
          if WorkloadType component \<noteq> Consensus then (w, Inr True)
          else
            (case getPodList cli of
               Inl e \<Rightarrow> (w, Inl e)
             | Inr pods \<Rightarrow>
                 (case reconcileConsensusSetStatus defaultPodName cli w component
                         (ComponentLabel stsObj) pods of
                    (w1, Inl e) \<Rightarrow> (w1, Inl e)
                  | (w1, Inr u) \<Rightarrow>
                      if Generation stsObj \<noteq> ObservedGeneration stsObj then (w1, Inr False)
                      else
                        (case Replicas stsObj of
                           None \<Rightarrow> (w1, Inl (Panic NilPointerDereference))
                         | Some replicas \<Rightarrow>
                             if int (length pods) \<noteq> replicas then (w1, Inr False)
                             else
                               (case generateConsensusUpdatePlan DefaultLeader pods component of
                                  Inl e \<Rightarrow> (w1, Inl e)
                                | Inr plan \<Rightarrow> WalkOneStep cli stsObj w1 plan)))))"

section \<open>Observations on plans and specifications\<close>

text \<open>
  The definitions of this section are not part of the controller: they name what the
  properties below talk about.
\<close>

text \<open>
  The role names of a specification: the leader's, the learner's (if there is one) and
  the followers'.
\<close>

definition roleNames :: "ConsensusSetSpec \<Rightarrow> string list" where
  "roleNames spec =
     Name (Leader spec) # (case Learner spec of None \<Rightarrow> [] | Some learner \<Rightarrow> [Name learner])
       @ map Name (Followers spec)"

text \<open>
  The batches of a plan, in the order \<open>WalkOneStep\<close> visits them: the successors of the
  start step, then the successors of the first step of that batch, and so on.
\<close>

fun batches :: "Step \<Rightarrow> Pod option list list" where
  "batches (Step obj []) = []"
| "batches (Step obj (s # ss)) = map Obj (s # ss) # batches s"

text \<open>The objects of all steps below a step, wherever they hang in the tree.\<close>

fun stepObjs :: "Step \<Rightarrow> Pod option list" where
  "stepObjs (Step obj ss) = concat (map (\<lambda>s. Obj s # stepObjs s) ss)"

text \<open>
  The tree that holds the non-empty batches \<open>bs\<close> one below the other, each batch
  hanging under the first step of the batch before it.
\<close>

fun chain :: "Pod option \<Rightarrow> Pod list list \<Rightarrow> Step" where
  "chain obj [] = Step obj []"
| "chain obj ([] # bs) = Step obj []"
| "chain obj ((p # ps) # bs) = Step obj (chain (Some p) bs # map (\<lambda>q. Step (Some q) []) ps)"

definition addBatch :: "Pod list list \<Rightarrow> Pod list \<Rightarrow> Pod list list" where
  "addBatch bs b = (if b = [] then bs else bs @ [b])"

text \<open>
  The pods of priority at most \<open>learnerPriority\<close>, the remaining pods, and the number of
  remaining pods of priority below \<open>leaderPriority\<close> (the remaining followers).
\<close>

definition upToLearner :: "rolePriorityMap \<Rightarrow> Pod list \<Rightarrow> Pod list" where
  "upToLearner m pods = filter (\<lambda>pod. priorityOf m (RoleLabel pod) \<le> learnerPriority) pods"

definition aboveLearner :: "rolePriorityMap \<Rightarrow> Pod list \<Rightarrow> Pod list" where
  "aboveLearner m pods = filter (\<lambda>pod. \<not> priorityOf m (RoleLabel pod) \<le> learnerPriority) pods"

definition followerCount :: "rolePriorityMap \<Rightarrow> Pod list \<Rightarrow> nat" where
  "followerCount m pods =
     length (filter (\<lambda>pod. priorityOf m (RoleLabel pod) < leaderPriority) (aboveLearner m pods))"

text \<open>
  The pods that occupy the slots of a status. The leader slot holds the placeholder
  \<open>defaultPodName\<close> when no pod is recorded as leader, and then has no occupant. The
  invariant of a status: no pod name occupies two slots (or one slot twice), and the
  followers are sorted by pod name.
\<close>

definition slotOccupants :: "string \<Rightarrow> ConsensusSetStatus \<Rightarrow> string list" where
  "slotOccupants defaultPodName s =
     (if Pod (Leader_Status s) = defaultPodName then [] else [Pod (Leader_Status s)])
       @ map Pod (Followers_Status s)
       @ (case Learner_Status s of None \<Rightarrow> [] | Some learner \<Rightarrow> [Pod learner])"

definition statusInvariant :: "string \<Rightarrow> ConsensusSetStatus \<Rightarrow> bool" where
  "statusInvariant defaultPodName s \<longleftrightarrow>
     distinct (slotOccupants defaultPodName s) \<and> sorted (map Pod (Followers_Status s))"

text \<open>
  The members of a specification (leader, learner, followers), and the member a role
  label stands for in the role map of a component (\<open>None\<close> when the label is not a
  key of the map).
\<close>

definition specEntries :: "ConsensusSetSpec \<Rightarrow> ConsensusMember list" where
  "specEntries spec =
     Leader spec # (case Learner spec of None \<Rightarrow> [] | Some learner \<Rightarrow> [learner])
       @ Followers spec"

definition roleOf ::
  "ClusterComponentDefinition \<Rightarrow> string \<Rightarrow> failure + consensusMemberExt option" where
  "roleOf componentDef role =
     (case composeConsensusRoleMap componentDef of
        Inl e \<Rightarrow> Inl e
      | Inr roleMap \<Rightarrow> Inr (roleMap role))"





definition setRoleInfo :: "string \<Rightarrow> string \<Rightarrow> string \<Rightarrow> ConfigMap \<Rightarrow> ConfigMap" where
  "setRoleInfo componentName leader followers config =
     config\<lparr>Data := Some ((case Data config of None \<Rightarrow> Map.empty | Some d \<Rightarrow> d)
        (leaderKey componentName \<mapsto> leader, followersKey componentName \<mapsto> followers))\<rparr>"




section \<open>Example data\<close>

text \<open>
  A component with a leader, three follower roles and a learner, and five pods of it,
  listed by ascending priority and ordinal.
\<close>

definition exampleDefaultLeader :: ConsensusMember where
  "exampleDefaultLeader = \<lparr>Name = ''leader'', AccessMode = ReadWrite\<rparr>"

definition exampleSpec :: ConsensusSetSpec where
  "exampleSpec =
     \<lparr>Leader = \<lparr>Name = ''leader'', AccessMode = ReadWrite\<rparr>,
      Followers =
        [\<lparr>Name = ''follower'', AccessMode = Readonly\<rparr>,
         \<lparr>Name = ''secondary'', AccessMode = ReadWrite\<rparr>,
         \<lparr>Name = ''standby'', AccessMode = None_AccessMode\<rparr>],
      Learner = Some \<lparr>Name = ''learner'', AccessMode = None_AccessMode\<rparr>,
      UpdateStrategy = BestEffortParallelStrategy\<rparr>"

definition exampleComponent :: ClusterComponentDefinition where
  "exampleComponent = \<lparr>WorkloadType = Consensus, ConsensusSpec = Some exampleSpec\<rparr>"

definition examplePod :: "string \<Rightarrow> int \<Rightarrow> string \<Rightarrow> Pod" where
  "examplePod nm ordinal role =
     \<lparr>Name_Pod = nm, Ordinal = ordinal, RoleLabel = role, Revision = ''rev-1'', Ready = True,
      Terminating = False\<rparr>"

definition examplePods :: "Pod list" where
  "examplePods =
     [examplePod ''mysql-0'' 0 ''learner'', examplePod ''mysql-1'' 1 ''follower'',
      examplePod ''mysql-2'' 2 ''follower'', examplePod ''mysql-3'' 3 ''follower'',
      examplePod ''mysql-4'' 4 ''leader'']"

text \<open>A status in which \<open>mysql-1\<close> is recorded as a follower.\<close>

definition exampleStatus :: ConsensusSetStatus where
  "exampleStatus =
     \<lparr>Leader_Status = \<lparr>Name = ''leader'', AccessMode = ReadWrite, Pod = ''mysql-0''\<rparr>,
      Followers_Status =
        [\<lparr>Name = ''follower'', AccessMode = Readonly, Pod = ''mysql-1''\<rparr>,
         \<lparr>Name = ''follower'', AccessMode = Readonly, Pod = ''mysql-2''\<rparr>],
      Learner_Status = None\<rparr>"

text \<open>
  A cluster in which every call succeeds and one config map matches the component, the
  world before the first pass, the status of the example pods and the world after the
  first pass.
\<close>

definition exampleConfigMap :: ConfigMap where
  "exampleConfigMap = \<lparr>Name_ConfigMap = ''mysql-env'', Data = Some Map.empty\<rparr>"

definition exampleClient :: client where
  "exampleClient =
     \<lparr>getComponentDef = Inr (Some exampleComponent),
      getPodList = Inr examplePods,
      statusPatchError = None,
      listConfigMaps = Inr [exampleConfigMap],
      configPatchError = (\<lambda>config. None),
      deletePod = (\<lambda>pod. Deleted)\<rparr>"

definition exampleWorld :: world where
  "exampleWorld = \<lparr>clusterStatus = None, statusPatches = [], configPatches = [], deletedPods = []\<rparr>"

definition exampleNewStatus :: ConsensusSetStatus where
  "exampleNewStatus =
     \<lparr>Leader_Status = \<lparr>Name = ''leader'', AccessMode = ReadWrite, Pod = ''mysql-4''\<rparr>,
      Followers_Status =
        [\<lparr>Name = ''follower'', AccessMode = Readonly, Pod = ''mysql-1''\<rparr>,
         \<lparr>Name = ''follower'', AccessMode = Readonly, Pod = ''mysql-2''\<rparr>,
         \<lparr>Name = ''follower'', AccessMode = Readonly, Pod = ''mysql-3''\<rparr>],
      Learner_Status = Some \<lparr>Name = ''learner'', AccessMode = None_AccessMode, Pod = ''mysql-0''\<rparr>\<rparr>"

definition exampleWorldAfter :: world where
  "exampleWorldAfter =
     \<lparr>clusterStatus = Some exampleNewStatus,
      statusPatches = [exampleNewStatus],
      configPatches =
        [\<lparr>Name_ConfigMap = ''mysql-env'',
          Data = Some [''KB_MYSQL_LEADER'' \<mapsto> ''mysql-4'',
                       ''KB_MYSQL_FOLLOWERS'' \<mapsto> ''mysql-1,mysql-2,mysql-3'']\<rparr>],
      deletedPods = []\<rparr>"

text \<open>
  A stateful set that has converged and asks for revision \<open>rev-2\<close> (the example pods are
  at \<open>rev-1\<close>), the same with a generation the controller of the stateful set has not
  observed yet, a cluster whose delete calls fail, and a cluster whose component
  definition is missing.
\<close>

definition exampleStatefulSet :: StatefulSet where
  "exampleStatefulSet =
     \<lparr>ComponentLabel = ''mysql'', Generation = 2, ObservedGeneration = 2, Replicas = Some 5,
      UpdateRevision = ''rev-2''\<rparr>"

definition examplePendingStatefulSet :: StatefulSet where
  "examplePendingStatefulSet = exampleStatefulSet\<lparr>Generation := 3\<rparr>"

definition exampleFailingClient :: client where
  "exampleFailingClient = exampleClient\<lparr>deletePod := (\<lambda>pod. DeleteFailed ''timeout'')\<rparr>"

definition exampleOtherClient :: client where
  "exampleOtherClient = exampleClient\<lparr>getComponentDef := Inr None\<rparr>"



definition exampleOddSpec :: ConsensusSetSpec where
  "exampleOddSpec =
     \<lparr>Leader = \<lparr>Name = ''leader'', AccessMode = ''''\<rparr>,
      Followers =
        [\<lparr>Name = ''witness'', AccessMode = ''''\<rparr>,
         \<lparr>Name = ''arbiter'', AccessMode = ''Voter''\<rparr>],
      Learner = None,
      UpdateStrategy = SerialStrategy\<rparr>"

definition exampleOddComponent :: ClusterComponentDefinition where
  "exampleOddComponent = \<lparr>WorkloadType = Consensus, ConsensusSpec = Some exampleOddSpec\<rparr>"

text \<open>
  A component with two followers of the same name, the first with an empty access mode,
  and a cluster whose status patch fails.
\<close>

definition exampleDuplicateComponent :: ClusterComponentDefinition where
  "exampleDuplicateComponent =
     \<lparr>WorkloadType = Consensus,
      ConsensusSpec = Some
        \<lparr>Leader = \<lparr>Name = ''leader'', AccessMode = ReadWrite\<rparr>,
         Followers =
           [\<lparr>Name = ''replica'', AccessMode = ''''\<rparr>,
            \<lparr>Name = ''replica'', AccessMode = Readonly\<rparr>],
         Learner = None,
         UpdateStrategy = SerialStrategy\<rparr>\<rparr>"

definition exampleConflictClient :: client where
  "exampleConflictClient = exampleClient\<lparr>statusPatchError := Some ''conflict''\<rparr>"




section \<open>Properties of role classification\<close>

lemma priority_values:
  "leaderPriority = 32" "followerReadWritePriority = 16" "followerReadonlyPriority = 8"
  "followerNonePriority = 4" "learnerPriority = 2" "emptyPriority = 1"
  by (simp_all add: leaderPriority_def followerReadWritePriority_def followerReadonlyPriority_def
    followerNonePriority_def learnerPriority_def emptyPriority_def)

lemma fold_followerPriority_other:
  "l \<notin> Name ` set fs \<Longrightarrow> fold followerPriority fs m l = m l"
  by (induction fs arbitrary: m) (auto simp: followerPriority_def)

lemma fold_followerPriority_member:
  "distinct (map Name fs) \<Longrightarrow> f \<in> set fs \<Longrightarrow>
   fold followerPriority fs m (Name f) = followerPriority f m (Name f)"
proof (induction fs arbitrary: m)
  case Nil
  then show ?case by simp
next
  case (Cons g gs)
  show ?case
  proof (cases "f = g")
    case True
    with Cons.prems have "Name f \<notin> Name ` set gs" by auto
    then show ?thesis using True by (simp add: fold_followerPriority_other)
  next
    case False
    with Cons.prems have f: "f \<in> set gs" and d: "distinct (map Name gs)" and ne: "Name g \<noteq> Name f"
      by auto
    have "fold followerPriority gs (followerPriority g m) (Name f)
        = followerPriority f (followerPriority g m) (Name f)"
      using Cons.IH [OF d f] .
    also have "\<dots> = followerPriority f m (Name f)"
      using ne by (simp add: followerPriority_def)
    finally show ?thesis by simp
  qed
qed

text \<open>
  Claim C3. For a specification whose role names (leader, learner, followers) are
  pairwise distinct and distinct from the empty label, the priority map gives the leader
  label 32, the label of a ReadWrite follower 16, of a Readonly follower 8, of a None
  follower 4, the learner label 2, the empty label 1 and every other label 0; these
  values decrease strictly from leader to unknown.
\<close>

theorem role_priority_order:
  assumes spec: "ConsensusSpec component = Some spec"
    and valid: "distinct ('''' # roleNames spec)"
  shows "priorityOf (ComposeRolePriorityMap DefaultLeader component) (Name (Leader spec)) = 32
    \<and> (\<forall>f \<in> set (Followers spec).
          (AccessMode f = ReadWrite \<longrightarrow>
             priorityOf (ComposeRolePriorityMap DefaultLeader component) (Name f) = 16)
        \<and> (AccessMode f = Readonly \<longrightarrow>
             priorityOf (ComposeRolePriorityMap DefaultLeader component) (Name f) = 8)
        \<and> (AccessMode f = None_AccessMode \<longrightarrow>
             priorityOf (ComposeRolePriorityMap DefaultLeader component) (Name f) = 4))
    \<and> (\<forall>learner. Learner spec = Some learner \<longrightarrow>
          priorityOf (ComposeRolePriorityMap DefaultLeader component) (Name learner) = 2)
    \<and> priorityOf (ComposeRolePriorityMap DefaultLeader component) '''' = 1
    \<and> (\<forall>l. l \<notin> set ('''' # roleNames spec) \<longrightarrow>
          priorityOf (ComposeRolePriorityMap DefaultLeader component) l = 0)
    \<and> leaderPriority > followerReadWritePriority
    \<and> followerReadWritePriority > followerReadonlyPriority
    \<and> followerReadonlyPriority > followerNonePriority
    \<and> followerNonePriority > learnerPriority
    \<and> learnerPriority > emptyPriority
    \<and> emptyPriority > 0"
proof -
  let ?m = "ComposeRolePriorityMap DefaultLeader component"
  define m2 where "m2 = (case Learner spec of
       None \<Rightarrow> [(''''::string) \<mapsto> emptyPriority, Name (Leader spec) \<mapsto> leaderPriority]
     | Some learner \<Rightarrow> ['''' \<mapsto> emptyPriority, Name (Leader spec) \<mapsto> leaderPriority,
         Name learner \<mapsto> learnerPriority])"
  have m: "?m = fold followerPriority (Followers spec) m2"
    using spec by (simp add: ComposeRolePriorityMap_def m2_def Let_def split: option.splits)
  have dF: "distinct (map Name (Followers spec))"
    using valid by (simp add: roleNames_def)
  have leader: "priorityOf ?m (Name (Leader spec)) = 32"
  proof -
    have "Name (Leader spec) \<notin> Name ` set (Followers spec)"
      using valid by (auto simp: roleNames_def)
    then have "?m (Name (Leader spec)) = m2 (Name (Leader spec))"
      unfolding m by (rule fold_followerPriority_other)
    also have "\<dots> = Some leaderPriority"
      using valid by (auto simp: m2_def roleNames_def split: option.splits)
    finally show ?thesis by (simp add: priorityOf_def priority_values)
  qed
  have empty: "priorityOf ?m '''' = 1"
  proof -
    have "'''' \<notin> Name ` set (Followers spec)"
      using valid by (auto simp: roleNames_def)
    then have "?m '''' = m2 ''''"
      unfolding m by (rule fold_followerPriority_other)
    also have "\<dots> = Some emptyPriority"
      using valid by (auto simp: m2_def roleNames_def split: option.splits)
    finally show ?thesis by (simp add: priorityOf_def priority_values)
  qed
  have learner: "priorityOf ?m (Name learner) = 2" if "Learner spec = Some learner" for learner
  proof -
    have "Name learner \<notin> Name ` set (Followers spec)"
      using valid that by (auto simp: roleNames_def)
    then have "?m (Name learner) = m2 (Name learner)"
      unfolding m by (rule fold_followerPriority_other)
    also have "\<dots> = Some learnerPriority"
      using that by (simp add: m2_def)
    finally show ?thesis by (simp add: priorityOf_def priority_values)
  qed
  have follower: "?m (Name f) = followerPriority f m2 (Name f)" if "f \<in> set (Followers spec)" for f
    unfolding m using dF that by (rule fold_followerPriority_member)
  have followers: "(AccessMode f = ReadWrite \<longrightarrow> priorityOf ?m (Name f) = 16)
        \<and> (AccessMode f = Readonly \<longrightarrow> priorityOf ?m (Name f) = 8)
        \<and> (AccessMode f = None_AccessMode \<longrightarrow> priorityOf ?m (Name f) = 4)"
    if "f \<in> set (Followers spec)" for f
    using follower [OF that]
    by (simp add: priorityOf_def followerPriority_def priority_values
        None_AccessMode_def Readonly_def ReadWrite_def)
  have unknown: "priorityOf ?m l = 0" if "l \<notin> set ('''' # roleNames spec)" for l
  proof -
    have "l \<notin> Name ` set (Followers spec)"
      using that by (auto simp: roleNames_def)
    then have "?m l = m2 l"
      unfolding m by (rule fold_followerPriority_other)
    also have "\<dots> = None"
      using that by (auto simp: m2_def roleNames_def split: option.splits)
    finally show ?thesis by (simp add: priorityOf_def)
  qed
  show ?thesis
    using leader empty learner followers unknown by (simp add: priority_values)
qed

lemma examplePriorities:
  "priorityOf (ComposeRolePriorityMap exampleDefaultLeader exampleComponent) ''learner'' = 2"
  "priorityOf (ComposeRolePriorityMap exampleDefaultLeader exampleComponent) ''follower'' = 8"
  "priorityOf (ComposeRolePriorityMap exampleDefaultLeader exampleComponent) ''leader'' = 32"
  by (simp_all add: priorityOf_def ComposeRolePriorityMap_def exampleComponent_def exampleSpec_def
      followerPriority_def None_AccessMode_def Readonly_def ReadWrite_def priority_values)

theorem role_priority_order_witness:
  "ConsensusSpec exampleComponent = Some exampleSpec
   \<and> distinct ('''' # roleNames exampleSpec)
   \<and> priorityOf (ComposeRolePriorityMap exampleDefaultLeader exampleComponent) ''leader'' = 32
   \<and> priorityOf (ComposeRolePriorityMap exampleDefaultLeader exampleComponent) ''secondary'' = 16
   \<and> priorityOf (ComposeRolePriorityMap exampleDefaultLeader exampleComponent) ''follower'' = 8
   \<and> priorityOf (ComposeRolePriorityMap exampleDefaultLeader exampleComponent) ''standby'' = 4
   \<and> priorityOf (ComposeRolePriorityMap exampleDefaultLeader exampleComponent) ''learner'' = 2
   \<and> priorityOf (ComposeRolePriorityMap exampleDefaultLeader exampleComponent) '''' = 1
   \<and> priorityOf (ComposeRolePriorityMap exampleDefaultLeader exampleComponent) ''observer'' = 0"
proof -
  have spec: "ConsensusSpec exampleComponent = Some exampleSpec"
    by (simp add: exampleComponent_def)
  have valid: "distinct ('''' # roleNames exampleSpec)"
    by (simp add: roleNames_def exampleSpec_def)
  have unknown: "''observer'' \<notin> set ('''' # roleNames exampleSpec)"
    by (simp add: roleNames_def exampleSpec_def)
  from role_priority_order [OF spec valid, of exampleDefaultLeader] spec valid unknown
  show ?thesis
    by (simp add: exampleSpec_def None_AccessMode_def Readonly_def ReadWrite_def)
qed

section \<open>Properties of the update plan\<close>

subsection \<open>Appending batches to a chain\<close>

lemma fold_appendNextStep_root:
  "fold (appendNextStep []) ps (Step obj ss) = Step obj (ss @ map (\<lambda>q. Step (Some q) []) ps)"
  by (induction ps arbitrary: ss) (simp_all add: appendNextStep_def)

lemma fold_appendNextStep_first:
  "fold (appendNextStep (0 # ref)) ps (Step obj (c # cs)) =
   Step obj (fold (appendNextStep ref) ps c # cs)"
  by (induction ps arbitrary: c) (simp_all add: appendNextStep_def)

lemma Obj_chain: "Obj (chain obj bs) = obj"
  by (induction obj bs rule: chain.induct) simp_all

lemma NextSteps_chain_end:
  "[] \<notin> set bs \<Longrightarrow> NextSteps (stepAt (replicate (length bs) 0) (chain obj bs)) = []"
proof (induction bs arbitrary: obj)
  case Nil
  then show ?case by simp
next
  case (Cons b bs)
  then obtain p ps where b: "b = p # ps" by (cases b) auto
  with Cons show ?case by simp
qed

lemma NextSteps_chain_snoc:
  "[] \<notin> set bs \<Longrightarrow> b \<noteq> [] \<Longrightarrow>
   NextSteps (stepAt (replicate (length bs) 0) (chain obj (bs @ [b]))) \<noteq> []"
proof (induction bs arbitrary: obj)
  case Nil
  then show ?case by (cases b) auto
next
  case (Cons c cs)
  then obtain p ps where c: "c = p # ps" by (cases c) auto
  with Cons show ?case by simp
qed

lemma fold_appendNextStep_chain:
  "[] \<notin> set bs \<Longrightarrow> b \<noteq> [] \<Longrightarrow>
   fold (appendNextStep (replicate (length bs) 0)) b (chain obj bs) = chain obj (bs @ [b])"
proof (induction bs arbitrary: obj)
  case Nil
  have "fold (appendNextStep []) b (Step obj []) = Step obj (map (\<lambda>q. Step (Some q) []) b)"
    by (simp add: fold_appendNextStep_root)
  with Nil show ?case by (cases b) simp_all
next
  case (Cons c cs)
  then obtain p ps where c: "c = p # ps" by (cases c) auto
  with Cons show ?case by (simp add: fold_appendNextStep_first)
qed

lemma addBatch_nonempty: "[] \<notin> set bs \<Longrightarrow> [] \<notin> set (addBatch bs b)"
  by (simp add: addBatch_def)

lemma fold_appendNextStep_addBatch:
  "[] \<notin> set bs \<Longrightarrow>
   fold (appendNextStep (replicate (length bs) 0)) b (chain obj bs) = chain obj (addBatch bs b)"
  by (cases "b = []") (simp_all add: addBatch_def fold_appendNextStep_chain del: replicate.simps)

lemma advanceStart_addBatch:
  "[] \<notin> set bs \<Longrightarrow>
   advanceStart (replicate (length bs) 0) (chain obj (addBatch bs b)) =
   replicate (length (addBatch bs b)) 0"
proof (cases "b = []")
  case True
  assume "[] \<notin> set bs"
  then show ?thesis using True
    by (simp add: addBatch_def advanceStart_def NextSteps_chain_end)
next
  case False
  assume "[] \<notin> set bs"
  then have "NextSteps (stepAt (replicate (length bs) 0) (chain obj (bs @ [b]))) \<noteq> []"
    using False by (rule NextSteps_chain_snoc)
  then show ?thesis using False
    by (simp add: addBatch_def advanceStart_def replicate_append_same)
qed

lemma batches_chain: "[] \<notin> set bs \<Longrightarrow> batches (chain obj bs) = map (map Some) bs"
proof (induction bs arbitrary: obj)
  case Nil
  then show ?case by simp
next
  case (Cons c cs)
  then obtain p ps where c: "c = p # ps" by (cases c) auto
  with Cons show ?case by (simp add: comp_def Obj_chain)
qed

lemma stepObjs_chain:
  "[] \<notin> set bs \<Longrightarrow> mset (stepObjs (chain obj bs)) = mset (map Some (concat bs))"
proof (induction bs arbitrary: obj)
  case Nil
  then show ?case by simp
next
  case (Cons c cs)
  then obtain p ps where c: "c = p # ps" by (cases c) auto
  have leaves: "concat (map (\<lambda>s. Obj s # stepObjs s) (map (\<lambda>q. Step (Some q) []) ps)) = map Some ps"
    by (induction ps) simp_all
  from Cons c show ?case by (simp add: leaves Obj_chain del: map_map)
qed

subsection \<open>The loops of the best-effort-parallel plan\<close>

lemma appendUpToLearner_eq:
  "appendUpToLearner start m pods plan index =
   (fold (appendNextStep start)
      (filter (\<lambda>pod. priorityOf m (RoleLabel pod) \<le> learnerPriority) pods) plan,
    index + length (filter (\<lambda>pod. priorityOf m (RoleLabel pod) \<le> learnerPriority) pods))"
  by (induction pods arbitrary: plan index) simp_all

lemma appendByIndex_eq:
  "\<forall>i \<in> set is. i < length podList \<Longrightarrow>
   appendByIndex start podList is plan =
   Inr (fold (appendNextStep start) (map (\<lambda>i. podList ! i) is) plan)"
  by (induction "is" arbitrary: plan) simp_all

lemma map_nth_upt_take: "k \<le> length xs \<Longrightarrow> map (\<lambda>i. xs ! i) [0..<k] = take k xs"
  by (simp add: list_eq_iff_nth_eq)

lemma appendByIndex_take:
  assumes "k \<le> length podList"
  shows "appendByIndex start podList [0..<k] plan =
    Inr (fold (appendNextStep start) (take k podList) plan)"
proof -
  have "\<forall>i \<in> set [0..<k]. i < length podList" using assms by simp
  then show ?thesis by (simp add: appendByIndex_eq map_nth_upt_take [OF assms])
qed

text \<open>
  Whatever the order of the pods, the generator does not panic and builds the chain of
  these four groups, the empty ones left out.
\<close>

lemma bestEffort_general:
  fixes pods m
  defines "b1 \<equiv> filter (\<lambda>pod. priorityOf m (RoleLabel pod) \<le> learnerPriority) pods"
  defines "rest \<equiv> drop (length b1) pods"
  defines "F \<equiv> length (filter (\<lambda>pod. priorityOf m (RoleLabel pod) < leaderPriority) rest)"
  shows "generateConsensusBestEffortParallelPlan (Step None []) pods m =
    Inr (chain None (addBatch (addBatch (addBatch (addBatch [] b1) (take (F div 2) rest))
           (take (F - F div 2) (drop (F div 2) rest))) (drop F rest)))"
proof -
  let ?bs1 = "addBatch [] b1"
  let ?bs2 = "addBatch ?bs1 (take (F div 2) rest)"
  let ?bs3 = "addBatch ?bs2 (take (F - F div 2) (drop (F div 2) rest))"
  have ne1: "[] \<notin> set ?bs1" by (simp add: addBatch_nonempty)
  have ne2: "[] \<notin> set ?bs2" by (simp add: addBatch_nonempty)
  have ne3: "[] \<notin> set ?bs3" by (simp add: addBatch_nonempty)
  have len1: "length b1 \<le> length pods" by (simp add: b1_def)
  have lenF: "F \<le> length rest" by (simp add: F_def)
  have s1: "appendUpToLearner [] m pods (Step None []) 0 = (chain None ?bs1, length b1)"
    using fold_appendNextStep_addBatch [of "[]" b1 None]
    by (simp add: appendUpToLearner_eq b1_def)
  have a1: "advanceStart [] (chain None ?bs1) = replicate (length ?bs1) 0"
    using advanceStart_addBatch [of "[]" None b1] by simp
  have sl1: "sliceFrom pods (length b1) = Inr rest"
    using len1 by (simp add: sliceFrom_def rest_def)
  have s2: "appendByIndex (replicate (length ?bs1) 0) rest [0..<F div 2] (chain None ?bs1) =
      Inr (chain None ?bs2)"
    using lenF by (simp add: appendByIndex_take fold_appendNextStep_addBatch [OF ne1])
  have a2: "advanceStart (replicate (length ?bs1) 0) (chain None ?bs2) = replicate (length ?bs2) 0"
    using advanceStart_addBatch [OF ne1] .
  have sl2: "sliceFrom rest (F div 2) = Inr (drop (F div 2) rest)"
    using lenF by (simp add: sliceFrom_def)
  have s3: "appendByIndex (replicate (length ?bs2) 0) (drop (F div 2) rest) [0..<F - F div 2]
      (chain None ?bs2) = Inr (chain None ?bs3)"
    using lenF by (simp add: appendByIndex_take fold_appendNextStep_addBatch [OF ne2])
  have a3: "advanceStart (replicate (length ?bs2) 0) (chain None ?bs3) = replicate (length ?bs3) 0"
    using advanceStart_addBatch [OF ne2] .
  have sl3: "sliceFrom (drop (F div 2) rest) (F - F div 2) = Inr (drop F rest)"
    using lenF by (simp add: sliceFrom_def)
  have s4: "fold (appendNextStep (replicate (length ?bs3) 0)) (drop F rest) (chain None ?bs3) =
      chain None (addBatch ?bs3 (drop F rest))"
    using fold_appendNextStep_addBatch [OF ne3] .
  show ?thesis
    unfolding generateConsensusBestEffortParallelPlan_def Let_def s1 prod.case a1 sl1 sum.case
      rest_def [symmetric] b1_def [symmetric] F_def [symmetric] s2 a2 sl2 s3 a3 sl3 s4 ..
qed

subsection \<open>Sorted pod lists\<close>

lemma podLess_podKey: "podLess m p q \<longleftrightarrow> podKey m p < podKey m q"
  by (auto simp: podLess_def podKey_def less_prod_def)

lemma sorted_priority:
  assumes "sorted (map (podKey m) pods)"
  shows "sorted (map (\<lambda>pod. priorityOf m (RoleLabel pod)) pods)"
proof -
  have "sorted_wrt (\<lambda>p q. podKey m p \<le> podKey m q) pods"
    using assms by (simp add: sorted_map)
  then have "sorted_wrt (\<lambda>p q. priorityOf m (RoleLabel p) \<le> priorityOf m (RoleLabel q)) pods"
    by (rule sorted_wrt_mono_rel [rotated]) (auto simp: podKey_def less_eq_prod_def)
  then show ?thesis by (simp add: sorted_map)
qed

lemma sorted_split_le:
  fixes g :: "'a \<Rightarrow> int"
  assumes "sorted (map g xs)"
  shows "filter (\<lambda>x. g x \<le> c) xs @ filter (\<lambda>x. \<not> g x \<le> c) xs = xs"
  using assms
proof (induction xs)
  case Nil
  then show ?case by simp
next
  case (Cons x xs)
  show ?case
  proof (cases "g x \<le> c")
    case True
    with Cons show ?thesis by simp
  next
    case False
    with Cons.prems have "\<forall>y \<in> set xs. \<not> g y \<le> c" by auto
    then have "filter (\<lambda>x. g x \<le> c) xs = []" "filter (\<lambda>x. \<not> g x \<le> c) xs = xs"
      by (simp_all add: filter_empty_conv filter_id_conv)
    with False show ?thesis by simp
  qed
qed

lemma sorted_split_less:
  fixes g :: "'a \<Rightarrow> int"
  assumes "sorted (map g xs)"
  shows "filter (\<lambda>x. g x < c) xs @ filter (\<lambda>x. \<not> g x < c) xs = xs"
proof -
  have "filter (\<lambda>x. g x \<le> c - 1) xs @ filter (\<lambda>x. \<not> g x \<le> c - 1) xs = xs"
    using assms by (rule sorted_split_le)
  moreover have "(\<lambda>x. g x \<le> c - 1) = (\<lambda>x. g x < c)" by auto
  ultimately show ?thesis by simp
qed

lemma split_drop: "a @ b = xs \<Longrightarrow> drop (length a) xs = b"
  by auto

lemma split_take: "a @ b = xs \<Longrightarrow> take (length a) xs = a"
  by auto

lemma bestEffort_sorted:
  assumes sorted: "sorted (map (podKey m) pods)"
  shows "generateConsensusBestEffortParallelPlan (Step None []) pods m =
      Inr (chain None (filter (\<lambda>b. b \<noteq> [])
        [upToLearner m pods,
         take (followerCount m pods div 2) (aboveLearner m pods),
         take (followerCount m pods - followerCount m pods div 2)
           (drop (followerCount m pods div 2) (aboveLearner m pods)),
         drop (followerCount m pods) (aboveLearner m pods)]))"
    and "take (followerCount m pods) (aboveLearner m pods) =
      filter (\<lambda>pod. learnerPriority < priorityOf m (RoleLabel pod)
                \<and> priorityOf m (RoleLabel pod) < leaderPriority) pods"
    and "drop (followerCount m pods) (aboveLearner m pods) =
      filter (\<lambda>pod. leaderPriority \<le> priorityOf m (RoleLabel pod)) pods"
proof -
  let ?g = "\<lambda>pod. priorityOf m (RoleLabel pod)"
  have sp: "sorted (map ?g pods)" using sorted by (rule sorted_priority)
  have split1: "upToLearner m pods @ aboveLearner m pods = pods"
    unfolding upToLearner_def aboveLearner_def using sp by (rule sorted_split_le)
  have rest: "drop (length (upToLearner m pods)) pods = aboveLearner m pods"
    using split1 by (rule split_drop)
  have sr: "sorted (map ?g (aboveLearner m pods))"
    unfolding aboveLearner_def using sp by (rule sorted_filter)
  have split2: "filter (\<lambda>pod. ?g pod < leaderPriority) (aboveLearner m pods)
      @ filter (\<lambda>pod. \<not> ?g pod < leaderPriority) (aboveLearner m pods) = aboveLearner m pods"
    using sr by (rule sorted_split_less)
  have "take (followerCount m pods) (aboveLearner m pods) =
      filter (\<lambda>pod. ?g pod < leaderPriority) (aboveLearner m pods)"
    unfolding followerCount_def using split2 by (rule split_take)
  also have "\<dots> = filter (\<lambda>pod. learnerPriority < ?g pod \<and> ?g pod < leaderPriority) pods"
    by (auto simp: aboveLearner_def intro: filter_cong)
  finally show "take (followerCount m pods) (aboveLearner m pods) =
      filter (\<lambda>pod. learnerPriority < ?g pod \<and> ?g pod < leaderPriority) pods" .
  have "drop (followerCount m pods) (aboveLearner m pods) =
      filter (\<lambda>pod. \<not> ?g pod < leaderPriority) (aboveLearner m pods)"
    unfolding followerCount_def using split2 by (rule split_drop)
  also have "\<dots> = filter (\<lambda>pod. leaderPriority \<le> ?g pod) pods"
    by (auto simp: aboveLearner_def priority_values intro: filter_cong)
  finally show "drop (followerCount m pods) (aboveLearner m pods) =
      filter (\<lambda>pod. leaderPriority \<le> ?g pod) pods" .
  have ab: "addBatch (addBatch (addBatch (addBatch [] b1) b2) b3) b4 =
      filter (\<lambda>b. b \<noteq> []) [b1, b2, b3, b4]" for b1 b2 b3 b4 :: "Pod list"
    by (simp add: addBatch_def)
  show "generateConsensusBestEffortParallelPlan (Step None []) pods m =
      Inr (chain None (filter (\<lambda>b. b \<noteq> [])
        [upToLearner m pods,
         take (followerCount m pods div 2) (aboveLearner m pods),
         take (followerCount m pods - followerCount m pods div 2)
           (drop (followerCount m pods div 2) (aboveLearner m pods)),
         drop (followerCount m pods) (aboveLearner m pods)]))"
    using bestEffort_general [of pods m]
    unfolding upToLearner_def [symmetric] rest followerCount_def [symmetric] ab .
qed

text \<open>
  Claim C1. For a pod list sorted by (priority, ordinal) and any priority map, the
  best-effort-parallel plan is built without a panic and its batches are, in order: the
  pods of priority at most the learner priority; the first \<open>F div 2\<close> of the remaining
  pods; the next \<open>F - F div 2\<close> of them; and the pods left after these \<open>F\<close>, where \<open>F\<close>
  is the number of remaining pods of priority below the leader priority. An empty group
  has no step in the plan. The first \<open>F\<close> remaining pods are exactly the followers
  (priority above learner and below leader), and the last group is exactly the pods of
  priority at least the leader priority, which are the pods of leader priority when no
  role has a higher one (as in every map of \<open>ComposeRolePriorityMap\<close>).
\<close>

theorem bestEffortParallel_plan_batches:
  assumes "sorted (map (podKey m) pods)"
  shows "\<exists>plan. generateConsensusBestEffortParallelPlan (Step None []) pods m = Inr plan
      \<and> batches plan = map (map Some) (filter (\<lambda>b. b \<noteq> [])
          [upToLearner m pods,
           take (followerCount m pods div 2) (aboveLearner m pods),
           take (followerCount m pods - followerCount m pods div 2)
             (drop (followerCount m pods div 2) (aboveLearner m pods)),
           drop (followerCount m pods) (aboveLearner m pods)])
      \<and> upToLearner m pods @ aboveLearner m pods = pods
      \<and> take (followerCount m pods) (aboveLearner m pods) =
          filter (\<lambda>pod. learnerPriority < priorityOf m (RoleLabel pod)
                    \<and> priorityOf m (RoleLabel pod) < leaderPriority) pods
      \<and> drop (followerCount m pods) (aboveLearner m pods) =
          filter (\<lambda>pod. leaderPriority \<le> priorityOf m (RoleLabel pod)) pods
      \<and> ((\<forall>role. priorityOf m role \<le> leaderPriority) \<longrightarrow>
          drop (followerCount m pods) (aboveLearner m pods) =
          filter (\<lambda>pod. priorityOf m (RoleLabel pod) = leaderPriority) pods)"
proof -
  note be = bestEffort_sorted [OF assms]
  have split: "upToLearner m pods @ aboveLearner m pods = pods"
    unfolding upToLearner_def aboveLearner_def
    using sorted_priority [OF assms] by (rule sorted_split_le)
  have leaders: "filter (\<lambda>pod. leaderPriority \<le> priorityOf m (RoleLabel pod)) pods =
      filter (\<lambda>pod. priorityOf m (RoleLabel pod) = leaderPriority) pods"
    if "\<forall>role. priorityOf m role \<le> leaderPriority"
  proof (rule filter_cong [OF refl])
    fix pod :: Pod
    from that have "priorityOf m (RoleLabel pod) \<le> leaderPriority" by simp
    then show "(leaderPriority \<le> priorityOf m (RoleLabel pod)) =
        (priorityOf m (RoleLabel pod) = leaderPriority)" by auto
  qed
  have bat: "batches (chain None (filter (\<lambda>b. b \<noteq> []) bs)) =
      map (map Some) (filter (\<lambda>b. b \<noteq> []) bs)" for bs :: "Pod list list"
    by (rule batches_chain) simp
  show ?thesis
  proof (intro exI conjI impI)
    show "generateConsensusBestEffortParallelPlan (Step None []) pods m =
        Inr (chain None (filter (\<lambda>b. b \<noteq> [])
          [upToLearner m pods,
           take (followerCount m pods div 2) (aboveLearner m pods),
           take (followerCount m pods - followerCount m pods div 2)
             (drop (followerCount m pods div 2) (aboveLearner m pods)),
           drop (followerCount m pods) (aboveLearner m pods)]))"
      by (rule be(1))
    show "batches (chain None (filter (\<lambda>b. b \<noteq> [])
          [upToLearner m pods,
           take (followerCount m pods div 2) (aboveLearner m pods),
           take (followerCount m pods - followerCount m pods div 2)
             (drop (followerCount m pods div 2) (aboveLearner m pods)),
           drop (followerCount m pods) (aboveLearner m pods)])) =
        map (map Some) (filter (\<lambda>b. b \<noteq> [])
          [upToLearner m pods,
           take (followerCount m pods div 2) (aboveLearner m pods),
           take (followerCount m pods - followerCount m pods div 2)
             (drop (followerCount m pods div 2) (aboveLearner m pods)),
           drop (followerCount m pods) (aboveLearner m pods)])"
      by (rule bat)
    show "upToLearner m pods @ aboveLearner m pods = pods" by (rule split)
    show "take (followerCount m pods) (aboveLearner m pods) =
        filter (\<lambda>pod. learnerPriority < priorityOf m (RoleLabel pod)
                  \<and> priorityOf m (RoleLabel pod) < leaderPriority) pods"
      by (rule be(2))
    show "drop (followerCount m pods) (aboveLearner m pods) =
        filter (\<lambda>pod. leaderPriority \<le> priorityOf m (RoleLabel pod)) pods"
      by (rule be(3))
    assume "\<forall>role. priorityOf m role \<le> leaderPriority"
    then show "drop (followerCount m pods) (aboveLearner m pods) =
        filter (\<lambda>pod. priorityOf m (RoleLabel pod) = leaderPriority) pods"
      using be(3) leaders by simp
  qed
qed

theorem bestEffortParallel_plan_batches_witness:
  "sorted (map (podKey (ComposeRolePriorityMap exampleDefaultLeader exampleComponent)) examplePods)
   \<and> (\<exists>plan. generateConsensusBestEffortParallelPlan (Step None []) examplePods
          (ComposeRolePriorityMap exampleDefaultLeader exampleComponent) = Inr plan
        \<and> batches plan =
          [[Some (examplePod ''mysql-0'' 0 ''learner'')],
           [Some (examplePod ''mysql-1'' 1 ''follower'')],
           [Some (examplePod ''mysql-2'' 2 ''follower''),
            Some (examplePod ''mysql-3'' 3 ''follower'')],
           [Some (examplePod ''mysql-4'' 4 ''leader'')]])"
proof -
  let ?m = "ComposeRolePriorityMap exampleDefaultLeader exampleComponent"
  have srt: "sorted (map (podKey ?m) examplePods)"
    by (simp add: examplePods_def podKey_def examplePod_def examplePriorities less_eq_prod_def)
  have up: "upToLearner ?m examplePods = [examplePod ''mysql-0'' 0 ''learner'']"
    by (simp add: upToLearner_def examplePods_def examplePod_def examplePriorities priority_values)
  have above: "aboveLearner ?m examplePods =
      [examplePod ''mysql-1'' 1 ''follower'', examplePod ''mysql-2'' 2 ''follower'',
       examplePod ''mysql-3'' 3 ''follower'', examplePod ''mysql-4'' 4 ''leader'']"
    by (simp add: aboveLearner_def examplePods_def examplePod_def examplePriorities priority_values)
  have count: "followerCount ?m examplePods = 3"
    unfolding followerCount_def above
    by (simp add: examplePod_def examplePriorities priority_values)
  show ?thesis
    using srt bestEffortParallel_plan_batches [OF srt]
    unfolding up above count by (simp add: numeral_3_eq_3) blast
qed

subsection \<open>The plan covers the pods\<close>

lemma serialPlanLoop_chain:
  "[] \<notin> set bs \<Longrightarrow>
   serialPlanLoop (replicate (length bs) 0) pods (chain obj bs) =
   chain obj (bs @ map (\<lambda>pod. [pod]) pods)"
proof (induction pods arbitrary: bs)
  case Nil
  then show ?case by simp
next
  case (Cons pod pods)
  have step: "appendNextStep (replicate (length bs) 0) pod (chain obj bs) = chain obj (bs @ [[pod]])"
    using fold_appendNextStep_chain [OF Cons.prems, of "[pod]" obj] by simp
  have start: "replicate (length bs) 0 @ [length (NextSteps (stepAt (replicate (length bs) 0)
      (chain obj bs)))] = replicate (length (bs @ [[pod]])) 0"
    using Cons.prems by (simp add: NextSteps_chain_end replicate_append_same)
  have ne: "[] \<notin> set (bs @ [[pod]])" using Cons.prems by simp
  show ?case
    unfolding serialPlanLoop.simps step start
    using Cons.IH [OF ne] by simp
qed

lemma serialPlan_chain:
  "generateConsensusSerialPlan (Step None []) pods = chain None (map (\<lambda>pod. [pod]) pods)"
  using serialPlanLoop_chain [of "[]" pods None] by (simp add: generateConsensusSerialPlan_def)

lemma parallelPlan_chain:
  "generateConsensusParallelPlan (Step None []) pods = chain None (addBatch [] pods)"
  using fold_appendNextStep_addBatch [of "[]" pods None]
  by (simp add: generateConsensusParallelPlan_def)

lemma concat_singletons: "concat (map (\<lambda>x. [x]) xs) = xs"
  by (induction xs) simp_all

lemma concat_nonempty: "concat (filter (\<lambda>b. b \<noteq> []) bs) = concat bs"
  by (induction bs) simp_all

lemma chain_covers:
  assumes "[] \<notin> set bs" and "mset (concat bs) = mset pods"
  shows "mset (stepObjs (chain None bs)) = mset (map Some pods)
       \<and> mset (concat (batches (chain None bs))) = mset (map Some pods)"
proof -
  have "concat (map (map Some) bs) = map Some (concat bs)"
    by (simp add: map_concat)
  with assms show ?thesis
    by (simp add: stepObjs_chain batches_chain)
qed

lemma mset_SortPods: "mset (SortPods pods m) = mset pods"
  by (simp add: SortPods_def)

lemma sorted_SortPods: "sorted (map (podKey m) (SortPods pods m))"
  by (simp add: SortPods_def)

text \<open>
  Claim C2. For each of the strategies Serial, Parallel and BestEffortParallel and every
  pod list, \<open>generateConsensusUpdatePlan\<close> returns a plan whose steps hold exactly the
  input pods, each as often as it occurs in the input: as multisets, the objects of all
  steps of the plan, and the objects of its batches, are the input pods.
\<close>

theorem update_plan_partitions_pods:
  assumes spec: "ConsensusSpec component = Some spec"
    and strategy: "UpdateStrategy spec = SerialStrategy \<or> UpdateStrategy spec = ParallelStrategy
        \<or> UpdateStrategy spec = BestEffortParallelStrategy"
  shows "\<exists>plan. generateConsensusUpdatePlan DefaultLeader pods component = Inr plan
      \<and> mset (stepObjs plan) = mset (map Some pods)
      \<and> mset (concat (batches plan)) = mset (map Some pods)"
proof -
  define m where "m = ComposeRolePriorityMap DefaultLeader component"
  define ps where "ps = SortPods pods m"
  have ps: "mset ps = mset pods" by (simp add: ps_def mset_SortPods)
  have "\<exists>bs. generateConsensusUpdatePlan DefaultLeader pods component = Inr (chain None bs)
      \<and> [] \<notin> set bs \<and> concat bs = ps"
  proof -
    consider (serial) "UpdateStrategy spec = SerialStrategy"
      | (parallel) "UpdateStrategy spec = ParallelStrategy"
      | (best) "UpdateStrategy spec = BestEffortParallelStrategy"
      using strategy by blast
    then show ?thesis
    proof cases
      case serial
      then have "generateConsensusUpdatePlan DefaultLeader pods component =
          Inr (chain None (map (\<lambda>pod. [pod]) ps))"
        using spec by (simp add: generateConsensusUpdatePlan_def serialPlan_chain ps_def m_def)
      moreover have "[] \<notin> set (map (\<lambda>pod. [pod]) ps)" by auto
      ultimately show ?thesis using concat_singletons [of ps] by blast
    next
      case parallel
      then have "generateConsensusUpdatePlan DefaultLeader pods component =
          Inr (chain None (addBatch [] ps))"
        using spec
        by (simp add: generateConsensusUpdatePlan_def parallelPlan_chain ps_def m_def
            SerialStrategy_def ParallelStrategy_def)
      moreover have "[] \<notin> set (addBatch [] ps)" by (simp add: addBatch_def)
      moreover have "concat (addBatch [] ps) = ps" by (simp add: addBatch_def)
      ultimately show ?thesis by blast
    next
      case best
      let ?F = "followerCount m ps"
      let ?bs = "filter (\<lambda>b. b \<noteq> [])
        [upToLearner m ps, take (?F div 2) (aboveLearner m ps),
         take (?F - ?F div 2) (drop (?F div 2) (aboveLearner m ps)),
         drop ?F (aboveLearner m ps)]"
      have srt: "sorted (map (podKey m) ps)" by (simp add: ps_def sorted_SortPods)
      have "generateConsensusUpdatePlan DefaultLeader pods component =
          generateConsensusBestEffortParallelPlan (Step None []) ps m"
        using spec best
        by (simp add: generateConsensusUpdatePlan_def ps_def m_def Let_def
            SerialStrategy_def ParallelStrategy_def BestEffortParallelStrategy_def)
      also have "\<dots> = Inr (chain None ?bs)"
        using bestEffort_sorted(1) [OF srt] .
      finally have "generateConsensusUpdatePlan DefaultLeader pods component =
          Inr (chain None ?bs)" .
      moreover have "[] \<notin> set ?bs" by simp
      moreover have "concat ?bs = ps"
      proof -
        have split: "upToLearner m ps @ aboveLearner m ps = ps"
          unfolding upToLearner_def aboveLearner_def
          using sorted_priority [OF srt] by (rule sorted_split_le)
        have "take (?F - ?F div 2) (drop (?F div 2) (aboveLearner m ps))
            = drop (?F div 2) (take ?F (aboveLearner m ps))"
          by (simp add: drop_take)
        then have "take (?F div 2) (aboveLearner m ps)
            @ take (?F - ?F div 2) (drop (?F div 2) (aboveLearner m ps))
            @ drop ?F (aboveLearner m ps) = aboveLearner m ps"
          by (metis append_assoc append_take_drop_id div_le_dividend min.absorb_iff2 take_take min.commute)
        with split show ?thesis
          unfolding concat_nonempty by simp
      qed
      ultimately show ?thesis by blast
    qed
  qed
  then obtain bs where plan: "generateConsensusUpdatePlan DefaultLeader pods component =
      Inr (chain None bs)" and ne: "[] \<notin> set bs" and cc: "concat bs = ps"
    by blast
  have "mset (concat bs) = mset pods" using cc ps by simp
  from chain_covers [OF ne this] plan show ?thesis by simp
qed

theorem update_plan_partitions_pods_witness:
  "ConsensusSpec exampleComponent = Some exampleSpec
   \<and> UpdateStrategy exampleSpec = BestEffortParallelStrategy
   \<and> (\<exists>plan. generateConsensusUpdatePlan exampleDefaultLeader (rev examplePods) exampleComponent
          = Inr plan
        \<and> mset (stepObjs plan) = mset (map Some (rev examplePods))
        \<and> mset (concat (batches plan)) = mset (map Some (rev examplePods)))
   \<and> generateConsensusUpdatePlan exampleDefaultLeader (rev examplePods) exampleComponent =
       Inr (Step None
         [Step (Some (examplePod ''mysql-0'' 0 ''learner''))
            [Step (Some (examplePod ''mysql-1'' 1 ''follower''))
               [Step (Some (examplePod ''mysql-2'' 2 ''follower''))
                  [Step (Some (examplePod ''mysql-4'' 4 ''leader'')) []],
                Step (Some (examplePod ''mysql-3'' 3 ''follower'')) []]]])"
proof -
  have spec: "ConsensusSpec exampleComponent = Some exampleSpec"
    by (simp add: exampleComponent_def)
  have strategy: "UpdateStrategy exampleSpec = BestEffortParallelStrategy"
    by (simp add: exampleSpec_def)
  then have any: "UpdateStrategy exampleSpec = SerialStrategy
      \<or> UpdateStrategy exampleSpec = ParallelStrategy
      \<or> UpdateStrategy exampleSpec = BestEffortParallelStrategy" by simp
  let ?m = "ComposeRolePriorityMap exampleDefaultLeader exampleComponent"
  have sorted: "SortPods (rev examplePods) ?m = examplePods"
    by (simp add: SortPods_def examplePods_def podKey_def examplePod_def examplePriorities
        less_eq_prod_def)
  have plan: "generateConsensusBestEffortParallelPlan (Step None []) examplePods ?m =
       Inr (Step None
         [Step (Some (examplePod ''mysql-0'' 0 ''learner''))
            [Step (Some (examplePod ''mysql-1'' 1 ''follower''))
               [Step (Some (examplePod ''mysql-2'' 2 ''follower''))
                  [Step (Some (examplePod ''mysql-4'' 4 ''leader'')) []],
                Step (Some (examplePod ''mysql-3'' 3 ''follower'')) []]]])"
    by code_simp
  have gen: "generateConsensusUpdatePlan exampleDefaultLeader (rev examplePods) exampleComponent =
      generateConsensusBestEffortParallelPlan (Step None []) examplePods ?m"
    using spec strategy
    by (simp add: generateConsensusUpdatePlan_def Let_def sorted SerialStrategy_def
        ParallelStrategy_def BestEffortParallelStrategy_def)
  from update_plan_partitions_pods [OF spec any, of exampleDefaultLeader "rev examplePods"]
    spec strategy gen plan
  show ?thesis by simp
qed

section \<open>Properties of the consensus status\<close>

subsection \<open>Removing a pod from the followers\<close>

text \<open>
  When no follower from \<open>index\<close> on is the pod, the loop leaves the slice as it is.
\<close>

lemma resetFollowersLoop_no_match:
  assumes "\<forall>j. index \<le> j \<and> j < n \<longrightarrow> Pod (arr ! j) \<noteq> pod"
  shows "resetFollowersLoop pod n index arr len = Inr (take len arr)"
  using assms
proof (induction "n - index" arbitrary: index)
  case 0
  then have "\<not> index < n" by simp
  then show ?case by (subst resetFollowersLoop.simps) simp
next
  case (Suc k)
  then have lt: "index < n" and ne: "Pod (arr ! index) \<noteq> pod" by auto
  have "resetFollowersLoop pod n (index + 1) arr len = Inr (take len arr)"
    using Suc by (intro Suc.hyps(1)) auto
  then show ?case using lt ne by (subst resetFollowersLoop.simps) simp
qed

lemma filter_remove_nth:
  assumes d: "distinct (map Pod fs)" and i: "index < length fs" and p: "Pod (fs ! index) = pod"
  shows "filter (\<lambda>m. Pod m \<noteq> pod) fs = take index fs @ drop (index + 1) fs"
proof -
  have fs: "fs = take index fs @ fs ! index # drop (Suc index) fs"
    using i by (rule id_take_nth_drop)
  have "distinct (map Pod (take index fs @ fs ! index # drop (Suc index) fs))"
    using d fs by simp
  then have a: "\<forall>x \<in> set (take index fs). Pod x \<noteq> pod"
    and b: "\<forall>x \<in> set (drop (Suc index) fs). Pod x \<noteq> pod"
    using p by (force simp: image_iff)+
  have "filter (\<lambda>m. Pod m \<noteq> pod) (take index fs @ fs ! index # drop (Suc index) fs)
      = take index fs @ drop (Suc index) fs"
    using a b p by (simp add: filter_id_conv)
  with fs show ?thesis by simp
qed

text \<open>
  When the followers are distinct by pod name, the loop does not panic and removes the
  pod: after the one shift, the cells the loop still reads hold followers that come
  after the removed one.
\<close>

lemma resetFollowersLoop_distinct:
  assumes d: "distinct (map Pod fs)"
    and before: "\<forall>j < index. Pod (fs ! j) \<noteq> pod"
    and le: "index \<le> length fs"
  shows "resetFollowersLoop pod (length fs) index fs (length fs) =
    Inr (filter (\<lambda>m. Pod m \<noteq> pod) fs)"
  using before le
proof (induction "length fs - index" arbitrary: index)
  case 0
  then have idx: "index = length fs" by simp
  then have "\<forall>x \<in> set fs. Pod x \<noteq> pod"
    using 0 by (auto simp: in_set_conv_nth)
  then have "filter (\<lambda>m. Pod m \<noteq> pod) fs = fs" by (simp add: filter_id_conv)
  then show ?case using idx by (subst resetFollowersLoop.simps) simp
next
  case (Suc k)
  let ?n = "length fs"
  from Suc have lt: "index < ?n" by simp
  show ?case
  proof (cases "Pod (fs ! index) = pod")
    case False
    have "resetFollowersLoop pod ?n (index + 1) fs ?n = Inr (filter (\<lambda>m. Pod m \<noteq> pod) fs)"
    proof (rule Suc.hyps(1))
      show "k = ?n - (index + 1)" using Suc.hyps(2) by simp
      show "\<forall>j < index + 1. Pod (fs ! j) \<noteq> pod"
        using Suc.prems(1) False by (auto simp: less_Suc_eq)
      show "index + 1 \<le> ?n" using lt by simp
    qed
    then show ?thesis using lt False by (subst resetFollowersLoop.simps) simp
  next
    case True
    let ?arr = "take index fs @ drop (index + 1) (take ?n fs) @ drop (?n - 1) fs"
    have arr: "?arr = take index fs @ drop (index + 1) fs @ drop (?n - 1) fs" by simp
    have later: "Pod (?arr ! j) \<noteq> pod" if j: "index + 1 \<le> j" "j < ?n" for j
    proof -
      have "\<exists>k. index < k \<and> k < ?n \<and> ?arr ! j = fs ! k"
      proof (cases "j < ?n - 1")
        case True
        then have "?arr ! j = fs ! (j + 1)"
          using j lt unfolding arr by (simp add: nth_append)
        then show ?thesis using j True by (intro exI [of _ "j + 1"]) simp
      next
        case False
        then have jn: "j = ?n - 1" using j by simp
        then have "?arr ! j = fs ! (?n - 1)"
          using j lt unfolding arr by (simp add: nth_append)
        then show ?thesis using j jn by (intro exI [of _ "?n - 1"]) simp
      qed
      then obtain k where k: "index < k" "k < ?n" "?arr ! j = fs ! k" by blast
      have "(map Pod fs ! k = map Pod fs ! index) = (k = index)"
        by (rule nth_eq_iff_index_eq) (use d k lt in simp_all)
      then show ?thesis using k lt True by simp
    qed
    have "resetFollowersLoop pod ?n (index + 1) ?arr (?n - 1) = Inr (take (?n - 1) ?arr)"
      by (rule resetFollowersLoop_no_match) (use later in blast)
    also have "take (?n - 1) ?arr = take index fs @ drop (index + 1) fs"
      using lt unfolding arr by simp
    also have "\<dots> = filter (\<lambda>m. Pod m \<noteq> pod) fs"
      using filter_remove_nth [OF d lt True] by simp
    finally show ?thesis using lt True by (subst resetFollowersLoop.simps) simp
  qed
qed

lemma resetFollowers_distinct:
  "distinct (map Pod fs) \<Longrightarrow>
   resetFollowersLoop pod (length fs) 0 fs (length fs) = Inr (filter (\<lambda>m. Pod m \<noteq> pod) fs)"
  by (rule resetFollowersLoop_distinct) simp_all

subsection \<open>The invariant of a status\<close>

lemma statusInvariant_initial: "statusInvariant D (initialConsensusSetStatus D)"
  by (simp add: statusInvariant_def slotOccupants_def initialConsensusSetStatus_def)

lemma statusInvariant_followers: "statusInvariant D s \<Longrightarrow> distinct (map Pod (Followers_Status s))"
  by (simp add: statusInvariant_def slotOccupants_def)

lemma resetConsensusSetStatusRole_invariant:
  assumes inv: "statusInvariant D s"
  shows "\<exists>s1. resetConsensusSetStatusRole D s pod = Inr s1 \<and> statusInvariant D s1
    \<and> pod \<notin> set (map Pod (Followers_Status s1))
    \<and> (\<forall>l. Learner_Status s1 = Some l \<longrightarrow> Pod l \<noteq> pod)
    \<and> (Pod (Leader_Status s1) = pod \<longrightarrow> pod = D)"
proof -
  define s0 where "s0 = (if Pod (Leader_Status s) = pod
      then s\<lparr>Leader_Status := \<lparr>Name = '''', AccessMode = None_AccessMode, Pod = D\<rparr>\<rparr> else s)"
  let ?fs = "filter (\<lambda>m. Pod m \<noteq> pod) (Followers_Status s)"
  have fs0: "Followers_Status s0 = Followers_Status s" by (simp add: s0_def)
  have d: "distinct (map Pod (Followers_Status s0))"
    using statusInvariant_followers [OF inv] fs0 by simp
  have loop: "resetFollowersLoop pod (length (Followers_Status s0)) 0 (Followers_Status s0)
      (length (Followers_Status s0)) = Inr ?fs"
    using resetFollowers_distinct [OF d] fs0 by simp
  define s1 where "s1 = (case Learner_Status s0 of
      None \<Rightarrow> s0\<lparr>Followers_Status := ?fs\<rparr>
    | Some learner \<Rightarrow> if Pod learner = pod
        then s0\<lparr>Followers_Status := ?fs, Learner_Status := None\<rparr>
        else s0\<lparr>Followers_Status := ?fs\<rparr>)"
  have r: "resetConsensusSetStatusRole D s pod = Inr s1"
    unfolding resetConsensusSetStatusRole_def s0_def [symmetric] Let_def loop
    by (simp add: s1_def split: option.splits)
  have sub: "set (map Pod ?fs) \<subseteq> set (map Pod (Followers_Status s))" by auto
  have dfs: "distinct (map Pod ?fs)"
    using statusInvariant_followers [OF inv] by (simp add: distinct_map_filter)
  have sfs: "sorted (map Pod ?fs)"
    using inv by (simp add: statusInvariant_def sorted_filter)
  have "statusInvariant D s1"
    using inv dfs sfs sub
    by (auto simp: statusInvariant_def slotOccupants_def s1_def s0_def split: option.splits if_splits)
  moreover have "pod \<notin> set (map Pod (Followers_Status s1))"
    by (auto simp: s1_def s0_def split: option.splits)
  moreover have "\<forall>l. Learner_Status s1 = Some l \<longrightarrow> Pod l \<noteq> pod"
    by (auto simp: s1_def s0_def split: option.splits if_splits)
  moreover have "Pod (Leader_Status s1) = pod \<longrightarrow> pod = D"
    by (auto simp: s1_def s0_def split: option.splits if_splits)
  ultimately show ?thesis using r by blast
qed

lemma setConsensusSetStatusLeader_invariant:
  assumes "statusInvariant D s" and "pod \<notin> set (map Pod (Followers_Status s))"
    and "\<forall>l. Learner_Status s = Some l \<longrightarrow> Pod l \<noteq> pod" and "podName ext = pod"
  shows "statusInvariant D (fst (setConsensusSetStatusLeader s ext))"
    and "Pod (Leader_Status (fst (setConsensusSetStatusLeader s ext))) = pod"
    and "Followers_Status (fst (setConsensusSetStatusLeader s ext)) = Followers_Status s"
  using assms
  by (auto simp: setConsensusSetStatusLeader_def statusInvariant_def slotOccupants_def
      split: option.splits if_splits)

lemma map_Pod_sort_key: "mset (map Pod (sort_key Pod xs)) = mset (map Pod xs)"
  by simp

lemma setConsensusSetStatusFollower_invariant:
  assumes inv: "statusInvariant D s" and nf: "pod \<notin> set (map Pod (Followers_Status s))"
    and nl: "\<forall>l. Learner_Status s = Some l \<longrightarrow> Pod l \<noteq> pod"
    and nd: "Pod (Leader_Status s) = pod \<longrightarrow> pod = D" and ext: "podName ext = pod"
  shows "statusInvariant D (fst (setConsensusSetStatusFollower s ext))"
proof -
  let ?m = "\<lparr>Name = name ext, AccessMode = accessMode ext, Pod = podName ext\<rparr>"
  let ?fs = "sort_key Pod (Followers_Status s @ [?m])"
  have no: "\<not> list_ex (\<lambda>member. Pod member = podName ext) (Followers_Status s)"
    using nf ext by (force simp: list_ex_iff image_iff)
  have r: "fst (setConsensusSetStatusFollower s ext) = s\<lparr>Followers_Status := ?fs\<rparr>"
    using no by (simp add: setConsensusSetStatusFollower_def)
  have set_fs: "set (map Pod ?fs) = insert pod (set (map Pod (Followers_Status s)))"
    using ext by simp
  have "distinct (map Pod (Followers_Status s @ [?m]))"
    using statusInvariant_followers [OF inv] nf ext by simp
  then have d: "distinct (map Pod ?fs)"
    using mset_eq_imp_distinct_iff [OF map_Pod_sort_key] by blast
  have srt: "sorted (map Pod ?fs)" by (rule sorted_sort_key)
  show ?thesis
    unfolding r using inv d srt set_fs nl nd
    by (auto simp: statusInvariant_def slotOccupants_def split: option.splits if_splits)
qed

lemma setConsensusSetStatusLearner_invariant:
  assumes "statusInvariant D s" and "pod \<notin> set (map Pod (Followers_Status s))"
    and "Pod (Leader_Status s) = pod \<longrightarrow> pod = D" and "podName ext = pod"
  shows "statusInvariant D (fst (setConsensusSetStatusLearner s ext))"
  using assms
  by (auto simp: setConsensusSetStatusLearner_def statusInvariant_def slotOccupants_def Let_def
      split: option.splits if_splits)

lemma setConsensusSetStatusRole_invariant:
  assumes inv: "statusInvariant D s" and rm: "composeConsensusRoleMap c = Inr roleMap"
  shows "\<exists>s' b. setConsensusSetStatusRole D s c role pod = Inr (s', b) \<and> statusInvariant D s'
    \<and> (\<forall>ext. roleMap role = Some ext \<and> consensusRole ext = roleLeader \<longrightarrow>
          Pod (Leader_Status s') = pod \<and> pod \<notin> set (map Pod (Followers_Status s'))
          \<and> (\<forall>l. Learner_Status s' = Some l \<longrightarrow> Pod l \<noteq> pod))"
proof (cases "roleMap role")
  case None
  then have "setConsensusSetStatusRole D s c role pod = Inr (s, False)"
    using rm by (simp add: setConsensusSetStatusRole_def)
  with inv None show ?thesis by auto
next
  case (Some found)
  define ext where "ext = found\<lparr>podName := pod\<rparr>"
  have pn: "podName ext = pod" by (simp add: ext_def)
  obtain s1 where r: "resetConsensusSetStatusRole D s pod = Inr s1"
    and inv1: "statusInvariant D s1"
    and nf: "pod \<notin> set (map Pod (Followers_Status s1))"
    and nl: "\<forall>l. Learner_Status s1 = Some l \<longrightarrow> Pod l \<noteq> pod"
    and nd: "Pod (Leader_Status s1) = pod \<longrightarrow> pod = D"
    using resetConsensusSetStatusRole_invariant [OF inv] by blast
  define res where "res =
     (if consensusRole ext = roleLeader then setConsensusSetStatusLeader s1 ext
      else if consensusRole ext = roleFollower then setConsensusSetStatusFollower s1 ext
      else if consensusRole ext = roleLearner then setConsensusSetStatusLearner s1 ext
      else (s1, False))"
  have eq: "setConsensusSetStatusRole D s c role pod = Inr res"
    using rm Some r by (simp add: setConsensusSetStatusRole_def ext_def [symmetric] pn res_def)
  have inv': "statusInvariant D (fst res)"
    unfolding res_def
    using setConsensusSetStatusLeader_invariant(1) [OF inv1 nf nl pn]
      setConsensusSetStatusFollower_invariant [OF inv1 nf nl nd pn]
      setConsensusSetStatusLearner_invariant [OF inv1 nf nd pn] inv1
    by simp
  have leader: "Pod (Leader_Status (fst res)) = pod
      \<and> pod \<notin> set (map Pod (Followers_Status (fst res)))
      \<and> (\<forall>l. Learner_Status (fst res) = Some l \<longrightarrow> Pod l \<noteq> pod)"
    if "consensusRole found = roleLeader"
  proof -
    from that have res: "res = setConsensusSetStatusLeader s1 ext"
      by (simp add: res_def ext_def)
    have "Learner_Status (fst (setConsensusSetStatusLeader s1 ext)) = Learner_Status s1"
      by (simp add: setConsensusSetStatusLeader_def)
    then show ?thesis
      unfolding res
      using setConsensusSetStatusLeader_invariant(2,3) [OF inv1 nf nl pn] nf nl by simp
  qed
  show ?thesis
    using eq inv' leader Some by (cases res) auto
qed

lemma setConsensusSetStatusRoles_invariant:
  assumes rm: "composeConsensusRoleMap c = Inr roleMap"
  shows "statusInvariant D s \<Longrightarrow>
    \<exists>s'. setConsensusSetStatusRoles D s c pods = Inr s' \<and> statusInvariant D s'"
proof (induction pods arbitrary: s)
  case Nil
  then show ?case by simp
next
  case (Cons pod pods)
  show ?case
  proof (cases "Ready pod")
    case False
    then show ?thesis using Cons by simp
  next
    case True
    obtain s1 b where s1: "setConsensusSetStatusRole D s c (RoleLabel pod) (Name_Pod pod) = Inr (s1, b)"
      and inv1: "statusInvariant D s1"
      using setConsensusSetStatusRole_invariant [OF Cons.prems rm] by blast
    from Cons.IH [OF inv1] True s1 show ?thesis by simp
  qed
qed

lemma composeConsensusRoleMap_Some:
  "ConsensusSpec c = Some spec \<Longrightarrow> \<exists>roleMap. composeConsensusRoleMap c = Inr roleMap"
  by (simp add: composeConsensusRoleMap_def Let_def)

text \<open>
  Claim C4. For a component with a consensus specification and a status that satisfies
  the invariant (no pod name in two slots, followers distinct and sorted by pod name),
  the update for one pod returns without a panic a status that satisfies the invariant
  again; when the pod's role label is the leader's, the pod is in the leader slot and
  in no other slot afterwards, whatever slot it had before. Hence a whole pass over the
  pods, from such a status or from the initial status of a pass, ends in a status that
  satisfies the invariant.
\<close>

theorem consensus_status_invariant:
  assumes spec: "ConsensusSpec c = Some spec" and inv: "statusInvariant D s"
  shows "(\<exists>s' b. setConsensusSetStatusRole D s c role pod = Inr (s', b) \<and> statusInvariant D s'
      \<and> (\<forall>roleMap ext. composeConsensusRoleMap c = Inr roleMap \<and> roleMap role = Some ext
            \<and> consensusRole ext = roleLeader \<longrightarrow>
            Pod (Leader_Status s') = pod \<and> pod \<notin> set (map Pod (Followers_Status s'))
            \<and> (\<forall>l. Learner_Status s' = Some l \<longrightarrow> Pod l \<noteq> pod)))
    \<and> (\<exists>s'. setConsensusSetStatusRoles D s c pods = Inr s' \<and> statusInvariant D s')
    \<and> (\<exists>s'. setConsensusSetStatusRoles D (initialConsensusSetStatus D) c pods = Inr s'
          \<and> statusInvariant D s')"
proof -
  obtain roleMap where rm: "composeConsensusRoleMap c = Inr roleMap"
    using composeConsensusRoleMap_Some [OF spec] by blast
  have "\<exists>s' b. setConsensusSetStatusRole D s c role pod = Inr (s', b) \<and> statusInvariant D s'
      \<and> (\<forall>roleMap ext. composeConsensusRoleMap c = Inr roleMap \<and> roleMap role = Some ext
            \<and> consensusRole ext = roleLeader \<longrightarrow>
            Pod (Leader_Status s') = pod \<and> pod \<notin> set (map Pod (Followers_Status s'))
            \<and> (\<forall>l. Learner_Status s' = Some l \<longrightarrow> Pod l \<noteq> pod))"
    using setConsensusSetStatusRole_invariant [OF inv rm, of role pod] rm by auto
  moreover have "\<exists>s'. setConsensusSetStatusRoles D s c pods = Inr s' \<and> statusInvariant D s'"
    using inv by (rule setConsensusSetStatusRoles_invariant [OF rm])
  moreover have "\<exists>s'. setConsensusSetStatusRoles D (initialConsensusSetStatus D) c pods = Inr s'
      \<and> statusInvariant D s'"
    using statusInvariant_initial by (rule setConsensusSetStatusRoles_invariant [OF rm])
  ultimately show ?thesis by blast
qed

lemma exampleRoleMap_full:
  "composeConsensusRoleMap exampleComponent = Inr
     [''leader'' \<mapsto> \<lparr>name = ''leader'', consensusRole = roleLeader,
          accessMode = ReadWrite, podName = ''''\<rparr>,
      ''follower'' \<mapsto> \<lparr>name = ''follower'', consensusRole = roleFollower,
          accessMode = Readonly, podName = ''''\<rparr>,
      ''secondary'' \<mapsto> \<lparr>name = ''secondary'', consensusRole = roleFollower,
          accessMode = ReadWrite, podName = ''''\<rparr>,
      ''standby'' \<mapsto> \<lparr>name = ''standby'', consensusRole = roleFollower,
          accessMode = None_AccessMode, podName = ''''\<rparr>,
      ''learner'' \<mapsto> \<lparr>name = ''learner'', consensusRole = roleLearner,
          accessMode = None_AccessMode, podName = ''''\<rparr>]"
  by (simp add: composeConsensusRoleMap_def exampleComponent_def exampleSpec_def
      putConsensusMemberExt_def roleLeader_def roleFollower_def roleLearner_def
      None_AccessMode_def Readonly_def ReadWrite_def)

theorem consensus_status_invariant_witness:
  "ConsensusSpec exampleComponent = Some exampleSpec
   \<and> statusInvariant ''Unknown'' exampleStatus
   \<and> setConsensusSetStatusRole ''Unknown'' exampleStatus exampleComponent ''leader'' ''mysql-1'' =
       Inr (\<lparr>Leader_Status = \<lparr>Name = ''leader'', AccessMode = ReadWrite, Pod = ''mysql-1''\<rparr>,
             Followers_Status =
               [\<lparr>Name = ''follower'', AccessMode = Readonly, Pod = ''mysql-2''\<rparr>],
             Learner_Status = None\<rparr>, True)
   \<and> statusInvariant ''Unknown''
       \<lparr>Leader_Status = \<lparr>Name = ''leader'', AccessMode = ReadWrite, Pod = ''mysql-1''\<rparr>,
        Followers_Status =
          [\<lparr>Name = ''follower'', AccessMode = Readonly, Pod = ''mysql-2''\<rparr>],
        Learner_Status = None\<rparr>
   \<and> (\<exists>s'. setConsensusSetStatusRoles ''Unknown'' (initialConsensusSetStatus ''Unknown'')
          exampleComponent examplePods = Inr s' \<and> statusInvariant ''Unknown'' s')"
proof -
  have spec: "ConsensusSpec exampleComponent = Some exampleSpec"
    by (simp add: exampleComponent_def)
  have inv: "statusInvariant ''Unknown'' exampleStatus"
    by (simp add: statusInvariant_def slotOccupants_def exampleStatus_def)
  have reset: "resetConsensusSetStatusRole ''Unknown'' exampleStatus ''mysql-1'' =
      Inr \<lparr>Leader_Status = \<lparr>Name = ''leader'', AccessMode = ReadWrite, Pod = ''mysql-0''\<rparr>,
           Followers_Status =
             [\<lparr>Name = ''follower'', AccessMode = Readonly, Pod = ''mysql-2''\<rparr>],
           Learner_Status = None\<rparr>"
    by (simp add: resetConsensusSetStatusRole_def exampleStatus_def)
  have step: "setConsensusSetStatusRole ''Unknown'' exampleStatus exampleComponent ''leader''
      ''mysql-1'' =
      Inr (\<lparr>Leader_Status = \<lparr>Name = ''leader'', AccessMode = ReadWrite, Pod = ''mysql-1''\<rparr>,
            Followers_Status =
              [\<lparr>Name = ''follower'', AccessMode = Readonly, Pod = ''mysql-2''\<rparr>],
            Learner_Status = None\<rparr>, True)"
    by (simp add: setConsensusSetStatusRole_def exampleRoleMap_full reset
        setConsensusSetStatusLeader_def roleLeader_def roleFollower_def roleLearner_def)
  from consensus_status_invariant [OF spec inv, of "''leader''" "''mysql-1''" examplePods]
  show ?thesis using spec inv step by auto
qed

subsection \<open>Idempotence of the status reconciliation\<close>

lemma patchConfigMaps_status:
  "patchConfigMaps cli componentName leader followers configs w = (w', r) \<Longrightarrow>
   clusterStatus w' = clusterStatus w \<and> statusPatches w' = statusPatches w
   \<and> deletedPods w' = deletedPods w"
proof (induction configs arbitrary: w)
  case Nil
  then show ?case by auto
next
  case (Cons config configs)
  show ?case
  proof (cases "Data config")
    case None
    with Cons.prems show ?thesis by auto
  next
    case (Some d)
    define config' where "config' = config\<lparr>Data := Some (d(leaderKey componentName \<mapsto> leader,
        followersKey componentName \<mapsto> followers))\<rparr>"
    define w1 where "w1 = w\<lparr>configPatches := configPatches w @ [config']\<rparr>"
    show ?thesis
    proof (cases "configPatchError cli config'")
      case None
      with Cons.prems Some have
        "patchConfigMaps cli componentName leader followers configs w1 = (w', r)"
        by (simp add: config'_def w1_def Let_def)
      from Cons.IH [OF this] show ?thesis by (simp add: w1_def)
    next
      case (Some err)
      with Cons.prems \<open>Data config = Some d\<close> show ?thesis
        by (auto simp: config'_def Let_def)
    qed
  qed
qed

lemma updateConsensusRoleInfo_status:
  "updateConsensusRoleInfo cli w componentDef componentName pods = (w', r) \<Longrightarrow>
   clusterStatus w' = clusterStatus w \<and> statusPatches w' = statusPatches w
   \<and> deletedPods w' = deletedPods w"
  by (auto simp: updateConsensusRoleInfo_def split: sum.splits prod.splits
      dest: patchConfigMaps_status)







lemma exampleKeys:
  "leaderKey ''mysql'' = ''KB_MYSQL_LEADER''" "followersKey ''mysql'' = ''KB_MYSQL_FOLLOWERS''"
  by code_simp+

lemma exampleNewStatus_eq:
  "setConsensusSetStatusRoles ''Unknown'' (initialConsensusSetStatus ''Unknown'') exampleComponent
     examplePods = Inr exampleNewStatus"
  by (simp add: examplePods_def examplePod_def setConsensusSetStatusRole_def exampleRoleMap_full
      initialConsensusSetStatus_def resetConsensusSetStatusRole_def
      setConsensusSetStatusLeader_def setConsensusSetStatusFollower_def
      setConsensusSetStatusLearner_def roleLeader_def roleFollower_def roleLearner_def
      exampleNewStatus_def None_AccessMode_def Readonly_def ReadWrite_def)

lemma exampleRoleInfo:
  "consensusRoleInfo exampleComponent examplePods '''' '''' =
     Inr (''mysql-4'', ''mysql-1,mysql-2,mysql-3'')"
  by (simp add: examplePods_def examplePod_def exampleRoleMap_full
      roleLeader_def roleFollower_def roleLearner_def)



section \<open>Properties of the role map\<close>

lemma roleNames_specEntries: "roleNames spec = map Name (specEntries spec)"
  by (simp add: roleNames_def specEntries_def split: option.splits)

lemma fold_putFollower_other:
  "\<forall>f \<in> set fs. Name f = l \<longrightarrow> Name f = '''' \<or> AccessMode f = '''' \<Longrightarrow>
   fold (\<lambda>follower m. putConsensusMemberExt m (Name follower) roleFollower (AccessMode follower))
     fs m l = m l"
  by (induction fs arbitrary: m) (auto simp: putConsensusMemberExt_def)

lemma fold_putFollower_member:
  "distinct (map Name fs) \<Longrightarrow> f \<in> set fs \<Longrightarrow> Name f \<noteq> '''' \<Longrightarrow> AccessMode f \<noteq> '''' \<Longrightarrow>
   fold (\<lambda>follower m. putConsensusMemberExt m (Name follower) roleFollower (AccessMode follower))
     fs m (Name f) =
   Some \<lparr>name = Name f, consensusRole = roleFollower, accessMode = AccessMode f, podName = ''''\<rparr>"
proof (induction fs arbitrary: m)
  case Nil
  then show ?case by simp
next
  case (Cons g gs)
  show ?case
  proof (cases "f = g")
    case True
    with Cons.prems have "\<forall>h \<in> set gs. Name h = Name f \<longrightarrow> Name h = '''' \<or> AccessMode h = ''''"
      by (auto simp: image_iff)
    from fold_putFollower_other [OF this] True Cons.prems show ?thesis
      by (simp add: putConsensusMemberExt_def roleFollower_def)
  next
    case False
    with Cons.prems have "f \<in> set gs" "distinct (map Name gs)" by auto
    from Cons.IH [OF this(2) this(1) Cons.prems(3,4)] show ?thesis by simp
  qed
qed

lemma roleOf_absent:
  assumes spec: "ConsensusSpec c = Some spec"
    and none: "\<forall>e \<in> set (specEntries spec). Name e = l \<longrightarrow> Name e = '''' \<or> AccessMode e = ''''"
  shows "roleOf c l = Inr None"
proof -
  let ?put = "\<lambda>follower m. putConsensusMemberExt m (Name follower) roleFollower (AccessMode follower)"
  let ?m0 = "putConsensusMemberExt Map.empty (Name (Leader spec)) roleLeader (AccessMode (Leader spec))"
  have m0: "?m0 l = None"
    using none by (auto simp: putConsensusMemberExt_def specEntries_def)
  have "\<forall>f \<in> set (Followers spec). Name f = l \<longrightarrow> Name f = '''' \<or> AccessMode f = ''''"
    using none by (simp add: specEntries_def)
  then have m1: "fold ?put (Followers spec) ?m0 l = None"
    using fold_putFollower_other [of "Followers spec" l ?m0] m0 by simp
  show ?thesis
  proof (cases "Learner spec")
    case None
    with spec m1 show ?thesis
      by (simp add: roleOf_def composeConsensusRoleMap_def Let_def)
  next
    case (Some learner)
    then have "Name learner = l \<longrightarrow> Name learner = '''' \<or> AccessMode learner = ''''"
      using none by (simp add: specEntries_def)
    with spec m1 Some show ?thesis
      by (auto simp: roleOf_def composeConsensusRoleMap_def Let_def putConsensusMemberExt_def)
  qed
qed

lemma roleOf_follower:
  assumes spec: "ConsensusSpec c = Some spec" and d: "distinct (roleNames spec)"
    and f: "f \<in> set (Followers spec)" and nm: "Name f \<noteq> ''''" and am: "AccessMode f \<noteq> ''''"
  shows "roleOf c (Name f) =
    Inr (Some \<lparr>name = Name f, consensusRole = roleFollower, accessMode = AccessMode f,
               podName = ''''\<rparr>)"
proof -
  let ?put = "\<lambda>follower m. putConsensusMemberExt m (Name follower) roleFollower (AccessMode follower)"
  let ?m0 = "putConsensusMemberExt Map.empty (Name (Leader spec)) roleLeader (AccessMode (Leader spec))"
  have dF: "distinct (map Name (Followers spec))" using d by (simp add: roleNames_def)
  have m1: "fold ?put (Followers spec) ?m0 (Name f) =
      Some \<lparr>name = Name f, consensusRole = roleFollower, accessMode = AccessMode f, podName = ''''\<rparr>"
    using dF f nm am by (rule fold_putFollower_member)
  show ?thesis
  proof (cases "Learner spec")
    case None
    with spec m1 show ?thesis
      by (simp add: roleOf_def composeConsensusRoleMap_def Let_def)
  next
    case (Some learner)
    then have "Name learner \<noteq> Name f" using d f by (auto simp: roleNames_def)
    with spec m1 Some show ?thesis
      by (simp add: roleOf_def composeConsensusRoleMap_def Let_def putConsensusMemberExt_def)
  qed
qed

lemma setConsensusSetStatusRole_unknown:
  "roleOf c role = Inr None \<Longrightarrow> setConsensusSetStatusRole D s c role pod = Inr (s, False)"
  by (auto simp: roleOf_def setConsensusSetStatusRole_def split: sum.splits)

lemma priority_leader:
  assumes spec: "ConsensusSpec c = Some spec" and d: "distinct (roleNames spec)"
  shows "priorityOf (ComposeRolePriorityMap DL c) (Name (Leader spec)) = leaderPriority"
proof -
  have "Name (Leader spec) \<notin> Name ` set (Followers spec)"
    using d by (auto simp: roleNames_def)
  then have "ComposeRolePriorityMap DL c (Name (Leader spec)) = Some leaderPriority"
    using spec d
    by (auto simp: ComposeRolePriorityMap_def Let_def fold_followerPriority_other roleNames_def
        split: option.splits)
  then show ?thesis by (simp add: priorityOf_def)
qed

lemma priority_learner:
  assumes spec: "ConsensusSpec c = Some spec" and d: "distinct (roleNames spec)"
    and l: "Learner spec = Some learner"
  shows "priorityOf (ComposeRolePriorityMap DL c) (Name learner) = learnerPriority"
proof -
  have "Name learner \<notin> Name ` set (Followers spec)"
    using d l by (auto simp: roleNames_def)
  then have "ComposeRolePriorityMap DL c (Name learner) = Some learnerPriority"
    using spec l
    by (simp add: ComposeRolePriorityMap_def Let_def fold_followerPriority_other)
  then show ?thesis by (simp add: priorityOf_def)
qed

lemma priority_unrecognised_follower:
  assumes spec: "ConsensusSpec c = Some spec" and d: "distinct (roleNames spec)"
    and f: "f \<in> set (Followers spec)" and nm: "Name f \<noteq> ''''"
    and am: "AccessMode f \<notin> {None_AccessMode, Readonly, ReadWrite}"
  shows "priorityOf (ComposeRolePriorityMap DL c) (Name f) = 0"
proof -
  define m2 where "m2 = (case Learner spec of
       None \<Rightarrow> [(''''::string) \<mapsto> emptyPriority, Name (Leader spec) \<mapsto> leaderPriority]
     | Some learner \<Rightarrow> ['''' \<mapsto> emptyPriority, Name (Leader spec) \<mapsto> leaderPriority,
         Name learner \<mapsto> learnerPriority])"
  have m: "ComposeRolePriorityMap DL c = fold followerPriority (Followers spec) m2"
    using spec by (simp add: ComposeRolePriorityMap_def m2_def Let_def split: option.splits)
  have dF: "distinct (map Name (Followers spec))" using d by (simp add: roleNames_def)
  have "ComposeRolePriorityMap DL c (Name f) = followerPriority f m2 (Name f)"
    unfolding m using dF f by (rule fold_followerPriority_member)
  also have "\<dots> = m2 (Name f)"
    using am by (simp add: followerPriority_def)
  also have "\<dots> = None"
  proof -
    have "Name f \<noteq> Name (Leader spec)"
      using d f by (force simp: roleNames_def image_iff)
    moreover have "Name f \<noteq> Name learner" if "Learner spec = Some learner" for learner
      using d f that by (force simp: roleNames_def image_iff)
    ultimately show ?thesis
      using nm by (simp add: m2_def split: option.splits)
  qed
  finally show ?thesis by (simp add: priorityOf_def)
qed

text \<open>
  Claim C10, amended. For a component whose specification has pairwise distinct role
  names: the insert helper returns the map unchanged for an empty name or access mode;
  a member (leader, follower or learner) with an empty name or access mode has no entry
  in the role map, so a pod with its label is skipped by the status update; a named
  follower whose access mode is none of None, Readonly and ReadWrite has priority 0.
  The two maps have different guards, so only a follower with an empty access mode is
  unknown in both: a named follower with a non-empty access mode, recognised or not, is
  a follower in the role map, and the leader and the learner keep the leader and learner
  priority whatever their access mode.
\<close>

theorem unknown_role_labels:
  assumes spec: "ConsensusSpec c = Some spec" and names: "distinct (roleNames spec)"
  shows "(\<forall>roleMap nm role am. nm = '''' \<or> am = '''' \<longrightarrow>
            putConsensusMemberExt roleMap nm role am = roleMap)
    \<and> (\<forall>e \<in> set (specEntries spec). Name e = '''' \<or> AccessMode e = '''' \<longrightarrow>
          roleOf c (Name e) = Inr None
          \<and> setConsensusSetStatusRole D s c (Name e) pod = Inr (s, False))
    \<and> (\<forall>f \<in> set (Followers spec).
          Name f \<noteq> '''' \<and> AccessMode f \<notin> {None_AccessMode, Readonly, ReadWrite} \<longrightarrow>
          priorityOf (ComposeRolePriorityMap DL c) (Name f) = 0)
    \<and> (\<forall>f \<in> set (Followers spec). Name f \<noteq> '''' \<and> AccessMode f \<noteq> '''' \<longrightarrow>
          roleOf c (Name f) =
            Inr (Some \<lparr>name = Name f, consensusRole = roleFollower, accessMode = AccessMode f,
                       podName = ''''\<rparr>))
    \<and> priorityOf (ComposeRolePriorityMap DL c) (Name (Leader spec)) = leaderPriority
    \<and> (\<forall>learner. Learner spec = Some learner \<longrightarrow>
          priorityOf (ComposeRolePriorityMap DL c) (Name learner) = learnerPriority)"
proof -
  have put: "putConsensusMemberExt roleMap nm role am = roleMap" if "nm = '''' \<or> am = ''''"
    for roleMap nm role am
    using that by (auto simp: putConsensusMemberExt_def)
  have absent: "roleOf c (Name e) = Inr None"
    if e: "e \<in> set (specEntries spec)" and inv: "Name e = '''' \<or> AccessMode e = ''''" for e
  proof (rule roleOf_absent [OF spec], intro ballI impI)
    fix e'
    assume e': "e' \<in> set (specEntries spec)" and same: "Name e' = Name e"
    have "distinct (map Name (specEntries spec))"
      using names by (simp add: roleNames_specEntries)
    then have "e' = e" using e e' same by (auto simp: distinct_map inj_on_def)
    with inv show "Name e' = '''' \<or> AccessMode e' = ''''" by simp
  qed
  have skipped: "setConsensusSetStatusRole D s c (Name e) pod = Inr (s, False)"
    if "e \<in> set (specEntries spec)" "Name e = '''' \<or> AccessMode e = ''''" for e
    using absent [OF that] by (rule setConsensusSetStatusRole_unknown)
  show ?thesis
  proof (intro conjI allI ballI impI)
    fix roleMap :: roleMap and nm role am :: string
    assume "nm = '''' \<or> am = ''''"
    then show "putConsensusMemberExt roleMap nm role am = roleMap" by (rule put)
  next
    fix e assume "e \<in> set (specEntries spec)" "Name e = '''' \<or> AccessMode e = ''''"
    then show "roleOf c (Name e) = Inr None" by (rule absent)
  next
    fix e assume "e \<in> set (specEntries spec)" "Name e = '''' \<or> AccessMode e = ''''"
    then show "setConsensusSetStatusRole D s c (Name e) pod = Inr (s, False)" by (rule skipped)
  next
    fix f assume "f \<in> set (Followers spec)"
      "Name f \<noteq> '''' \<and> AccessMode f \<notin> {None_AccessMode, Readonly, ReadWrite}"
    then show "priorityOf (ComposeRolePriorityMap DL c) (Name f) = 0"
      using priority_unrecognised_follower [OF spec names] by blast
  next
    fix f assume "f \<in> set (Followers spec)" "Name f \<noteq> '''' \<and> AccessMode f \<noteq> ''''"
    then show "roleOf c (Name f) =
        Inr (Some \<lparr>name = Name f, consensusRole = roleFollower, accessMode = AccessMode f,
                   podName = ''''\<rparr>)"
      using roleOf_follower [OF spec names] by blast
  next
    show "priorityOf (ComposeRolePriorityMap DL c) (Name (Leader spec)) = leaderPriority"
      by (rule priority_leader [OF spec names])
  next
    fix learner assume "Learner spec = Some learner"
    then show "priorityOf (ComposeRolePriorityMap DL c) (Name learner) = learnerPriority"
      by (rule priority_learner [OF spec names])
  qed
qed

theorem unknown_role_labels_witness:
  "ConsensusSpec exampleOddComponent = Some exampleOddSpec
   \<and> distinct (roleNames exampleOddSpec)
   \<and> roleOf exampleOddComponent ''witness'' = Inr None
   \<and> setConsensusSetStatusRole ''Unknown'' exampleStatus exampleOddComponent ''witness''
        ''mysql-1'' = Inr (exampleStatus, False)
   \<and> priorityOf (ComposeRolePriorityMap exampleDefaultLeader exampleOddComponent) ''witness'' = 0
   \<and> roleOf exampleOddComponent ''leader'' = Inr None
   \<and> priorityOf (ComposeRolePriorityMap exampleDefaultLeader exampleOddComponent) ''leader'' = 32
   \<and> roleOf exampleOddComponent ''arbiter'' =
        Inr (Some \<lparr>name = ''arbiter'', consensusRole = roleFollower, accessMode = ''Voter'',
                   podName = ''''\<rparr>)
   \<and> priorityOf (ComposeRolePriorityMap exampleDefaultLeader exampleOddComponent) ''arbiter'' = 0"
proof -
  have spec: "ConsensusSpec exampleOddComponent = Some exampleOddSpec"
    by (simp add: exampleOddComponent_def)
  have names: "distinct (roleNames exampleOddSpec)"
    by (simp add: roleNames_def exampleOddSpec_def)
  from unknown_role_labels [OF spec names, of "''Unknown''" exampleStatus "''mysql-1''"
      exampleDefaultLeader] spec names
  show ?thesis
    by (simp add: specEntries_def exampleOddSpec_def None_AccessMode_def Readonly_def
        ReadWrite_def priority_values)
qed

text \<open>
  The claim as stated fails twice at the component \<open>exampleOddComponent\<close>: its leader
  has an empty access mode and is missing from the role map, yet its label has priority
  32; its follower \<open>arbiter\<close> has the access mode \<open>Voter\<close> and priority 0, yet a pod with
  that label is recorded as a follower in the status. When two members share a name, as
  in \<open>exampleDuplicateComponent\<close>, the label of a member that is not inserted can still
  be a key of the role map.
\<close>

theorem unknown_role_labels_counterexample:
  "roleOf exampleOddComponent ''leader'' = Inr None
   \<and> priorityOf (ComposeRolePriorityMap exampleDefaultLeader exampleOddComponent) ''leader'' = 32
   \<and> roleOf exampleOddComponent ''arbiter'' =
        Inr (Some \<lparr>name = ''arbiter'', consensusRole = roleFollower, accessMode = ''Voter'',
                   podName = ''''\<rparr>)
   \<and> priorityOf (ComposeRolePriorityMap exampleDefaultLeader exampleOddComponent) ''arbiter'' = 0
   \<and> setConsensusSetStatusRole ''Unknown'' (initialConsensusSetStatus ''Unknown'')
        exampleOddComponent ''arbiter'' ''mysql-1'' =
      Inr (\<lparr>Leader_Status = \<lparr>Name = '''', AccessMode = None_AccessMode, Pod = ''Unknown''\<rparr>,
            Followers_Status = [\<lparr>Name = ''arbiter'', AccessMode = ''Voter'', Pod = ''mysql-1''\<rparr>],
            Learner_Status = None\<rparr>, True)
   \<and> roleOf exampleDuplicateComponent ''replica'' =
        Inr (Some \<lparr>name = ''replica'', consensusRole = roleFollower, accessMode = Readonly,
                   podName = ''''\<rparr>)"
  by (simp add: roleOf_def composeConsensusRoleMap_def exampleOddComponent_def exampleOddSpec_def
      exampleDuplicateComponent_def
      putConsensusMemberExt_def roleLeader_def roleFollower_def roleLearner_def
      priorityOf_def ComposeRolePriorityMap_def followerPriority_def
      None_AccessMode_def Readonly_def ReadWrite_def priority_values
      setConsensusSetStatusRole_def resetConsensusSetStatusRole_def initialConsensusSetStatus_def
      setConsensusSetStatusFollower_def)






section \<open>Properties of the plan walk and of the handler\<close>

text \<open>
  Claim C7, amended. The walk function sends a delete exactly when the pod is not
  terminating and its revision differs from the update revision of the stateful set; it
  sends none for a terminating pod or a pod at the update revision, ready or not. When
  it sends the delete, the pod is classified not yet settled if the delete succeeds or
  reports that the pod is not found; any other error of the delete is returned instead.
  A terminating pod is not yet settled, and a pod at the update revision is settled
  exactly when it is ready.
\<close>

theorem walkFunc_delete:
  "deletedPods (fst (WalkFunc cli stsObj w (Some pod))) =
     (if \<not> Terminating pod \<and> Revision pod \<noteq> UpdateRevision stsObj
      then deletedPods w @ [pod] else deletedPods w)
   \<and> (\<not> Terminating pod \<and> Revision pod \<noteq> UpdateRevision stsObj \<longrightarrow>
        snd (WalkFunc cli stsObj w (Some pod)) =
          (case deletePod cli pod of
             DeleteFailed err \<Rightarrow> Inl (Error err)
           | _ \<Rightarrow> Inr True))
   \<and> (Terminating pod \<longrightarrow> snd (WalkFunc cli stsObj w (Some pod)) = Inr True)
   \<and> (\<not> Terminating pod \<and> Revision pod = UpdateRevision stsObj \<longrightarrow>
        snd (WalkFunc cli stsObj w (Some pod)) = Inr (\<not> Ready pod))"
  by (cases "deletePod cli pod") (simp_all add: WalkFunc_def Let_def)

theorem walkFunc_delete_witness:
  "\<not> Terminating (examplePod ''mysql-1'' 1 ''follower'')
   \<and> Revision (examplePod ''mysql-1'' 1 ''follower'') \<noteq> UpdateRevision exampleStatefulSet
   \<and> WalkFunc exampleClient exampleStatefulSet exampleWorld
        (Some (examplePod ''mysql-1'' 1 ''follower'')) =
      (exampleWorld\<lparr>deletedPods := [examplePod ''mysql-1'' 1 ''follower'']\<rparr>, Inr True)
   \<and> Revision (examplePod ''mysql-1'' 1 ''follower'')
        = UpdateRevision (exampleStatefulSet\<lparr>UpdateRevision := ''rev-1''\<rparr>)
   \<and> WalkFunc exampleClient (exampleStatefulSet\<lparr>UpdateRevision := ''rev-1''\<rparr>) exampleWorld
        (Some (examplePod ''mysql-1'' 1 ''follower'')) = (exampleWorld, Inr False)"
proof -
  let ?pod = "examplePod ''mysql-1'' 1 ''follower''"
  have stale: "\<not> Terminating ?pod \<and> Revision ?pod \<noteq> UpdateRevision exampleStatefulSet"
    by (simp add: examplePod_def exampleStatefulSet_def)
  have ok: "deletePod exampleClient ?pod = Deleted"
    by (simp add: exampleClient_def)
  have w: "fst (WalkFunc exampleClient exampleStatefulSet exampleWorld (Some ?pod)) =
      exampleWorld\<lparr>deletedPods := [?pod]\<rparr>"
    by (simp add: WalkFunc_def examplePod_def exampleStatefulSet_def exampleClient_def
        exampleWorld_def)
  have w': "fst (WalkFunc exampleClient (exampleStatefulSet\<lparr>UpdateRevision := ''rev-1''\<rparr>)
      exampleWorld (Some ?pod)) = exampleWorld"
    by (simp add: WalkFunc_def examplePod_def exampleStatefulSet_def)
  have fresh: "\<not> Terminating ?pod \<and> Revision ?pod
      = UpdateRevision (exampleStatefulSet\<lparr>UpdateRevision := ''rev-1''\<rparr>) \<and> Ready ?pod"
    by (simp add: examplePod_def)
  from walkFunc_delete [of exampleClient exampleStatefulSet exampleWorld ?pod]
    walkFunc_delete [of exampleClient "exampleStatefulSet\<lparr>UpdateRevision := ''rev-1''\<rparr>"
      exampleWorld ?pod]
    stale ok w w' fresh
  show ?thesis by (simp add: prod_eq_iff)
qed

text \<open>
  The claim as stated fails when the delete returns an error: the delete has been sent
  and the result is that error, not the classification "not yet settled".
\<close>

theorem walkFunc_delete_error_counterexample:
  "\<not> Terminating (examplePod ''mysql-1'' 1 ''follower'')
   \<and> Revision (examplePod ''mysql-1'' 1 ''follower'') \<noteq> UpdateRevision exampleStatefulSet
   \<and> deletedPods (fst (WalkFunc exampleFailingClient exampleStatefulSet exampleWorld
        (Some (examplePod ''mysql-1'' 1 ''follower'')))) = [examplePod ''mysql-1'' 1 ''follower'']
   \<and> snd (WalkFunc exampleFailingClient exampleStatefulSet exampleWorld
        (Some (examplePod ''mysql-1'' 1 ''follower''))) = Inl (Error ''timeout'')
   \<and> snd (WalkFunc exampleFailingClient exampleStatefulSet exampleWorld
        (Some (examplePod ''mysql-1'' 1 ''follower''))) \<noteq> Inr True"
  by (simp add: WalkFunc_def examplePod_def exampleStatefulSet_def exampleFailingClient_def
      exampleClient_def exampleWorld_def)

lemma reconcileConsensusSetStatus_deletedPods:
  assumes "reconcileConsensusSetStatus D cli w c componentName pods = (w1, r)"
  shows "deletedPods w1 = deletedPods w"
proof (cases "setConsensusSetStatusRoles D (initialConsensusSetStatus D) c pods")
  case (Inl e)
  with assms show ?thesis by (simp add: reconcileConsensusSetStatus_def)
next
  case (Inr new)
  show ?thesis
  proof (cases "Some new = clusterStatus w")
    case True
    with assms Inr show ?thesis by (auto simp: reconcileConsensusSetStatus_def)
  next
    case False
    show ?thesis
    proof (cases "statusPatchError cli")
      case (Some err)
      with assms Inr False show ?thesis
        by (auto simp: reconcileConsensusSetStatus_def Let_def)
    next
      case None
      define w0 where "w0 = w\<lparr>statusPatches := statusPatches w @ [new], clusterStatus := Some new\<rparr>"
      from assms Inr False None have "updateConsensusRoleInfo cli w0 c componentName pods = (w1, r)"
        by (auto simp: reconcileConsensusSetStatus_def Let_def w0_def)
      from updateConsensusRoleInfo_status [OF this] show ?thesis by (simp add: w0_def)
    qed
  qed
qed

text \<open>The returns of the handler before the checks of the stateful set.\<close>

lemma handle_componentError:
  "getComponentDef cli = Inl e \<Longrightarrow>
   handleConsensusSetUpdate D DefaultLeader cli w stsObj = (w, Inl e)"
  by (simp add: handleConsensusSetUpdate_def)

lemma handle_noComponent:
  "getComponentDef cli = Inr None \<Longrightarrow>
   handleConsensusSetUpdate D DefaultLeader cli w stsObj = (w, Inr True)"
  by (simp add: handleConsensusSetUpdate_def)

lemma handle_otherWorkload:
  "getComponentDef cli = Inr (Some component) \<Longrightarrow> WorkloadType component \<noteq> Consensus \<Longrightarrow>
   handleConsensusSetUpdate D DefaultLeader cli w stsObj = (w, Inr True)"
  by (simp add: handleConsensusSetUpdate_def)

lemma handle_podListError:
  "getComponentDef cli = Inr (Some component) \<Longrightarrow> WorkloadType component = Consensus \<Longrightarrow>
   getPodList cli = Inl e \<Longrightarrow>
   handleConsensusSetUpdate D DefaultLeader cli w stsObj = (w, Inl e)"
  by (simp add: handleConsensusSetUpdate_def)

lemma handle_statusError:
  "getComponentDef cli = Inr (Some component) \<Longrightarrow> WorkloadType component = Consensus \<Longrightarrow>
   getPodList cli = Inr pods \<Longrightarrow>
   reconcileConsensusSetStatus D cli w component (ComponentLabel stsObj) pods = (w1, Inl e) \<Longrightarrow>
   handleConsensusSetUpdate D DefaultLeader cli w stsObj = (w1, Inl e)"
  by (simp add: handleConsensusSetUpdate_def)

lemma reconcile_patchError:
  "setConsensusSetStatusRoles D (initialConsensusSetStatus D) component pods = Inr new \<Longrightarrow>
   Some new \<noteq> clusterStatus w \<Longrightarrow> statusPatchError cli = Some err \<Longrightarrow>
   reconcileConsensusSetStatus D cli w component componentName pods =
     (w\<lparr>statusPatches := statusPatches w @ [new]\<rparr>, Inl (Error err))"
  by (simp add: reconcileConsensusSetStatus_def Let_def)

lemma reconcile_propagation:
  "setConsensusSetStatusRoles D (initialConsensusSetStatus D) component pods = Inr new \<Longrightarrow>
   Some new \<noteq> clusterStatus w \<Longrightarrow> statusPatchError cli = None \<Longrightarrow>
   reconcileConsensusSetStatus D cli w component componentName pods =
     updateConsensusRoleInfo cli
       (w\<lparr>statusPatches := statusPatches w @ [new], clusterStatus := Some new\<rparr>)
       component componentName pods"
  by (simp add: reconcileConsensusSetStatus_def Let_def)

lemma updateConsensusRoleInfo_listError:
  "consensusRoleInfo component pods [] [] = Inr info \<Longrightarrow> listConfigMaps cli = Inl e \<Longrightarrow>
   updateConsensusRoleInfo cli w component componentName pods = (w, Inl e)"
  by (cases info) (simp add: updateConsensusRoleInfo_def)

lemma updateConsensusRoleInfo_patchError:
  assumes "consensusRoleInfo component pods [] [] = Inr (leader, followers)"
    and "listConfigMaps cli = Inr (config # configs)"
    and "Data config \<noteq> None"
    and "configPatchError cli (setRoleInfo componentName leader followers config) = Some err"
  shows "updateConsensusRoleInfo cli w component componentName pods =
    (w\<lparr>configPatches := configPatches w @ [setRoleInfo componentName leader followers config]\<rparr>,
     Inl (Error err))"
  using assms by (auto simp: updateConsensusRoleInfo_def setRoleInfo_def Let_def)

lemma handle_notConverged:
  assumes nc: "Generation stsObj \<noteq> ObservedGeneration stsObj
      \<or> (\<exists>replicas. Replicas stsObj = Some replicas
            \<and> (\<forall>pods. getPodList cli = Inr pods \<longrightarrow> int (length pods) \<noteq> replicas))"
    and "getComponentDef cli = Inr (Some component)" "WorkloadType component = Consensus"
      "getPodList cli = Inr pods"
      "reconcileConsensusSetStatus D cli w component (ComponentLabel stsObj) pods = (w1, Inr u)"
  shows "handleConsensusSetUpdate D DefaultLeader cli w stsObj = (w1, Inr False)"
  using assms by (auto simp: handleConsensusSetUpdate_def)

lemma handle_notConverged_deletedPods:
  assumes nc: "Generation stsObj \<noteq> ObservedGeneration stsObj
      \<or> (\<exists>replicas. Replicas stsObj = Some replicas
            \<and> (\<forall>pods. getPodList cli = Inr pods \<longrightarrow> int (length pods) \<noteq> replicas))"
  shows "deletedPods (fst (handleConsensusSetUpdate D DefaultLeader cli w stsObj)) = deletedPods w"
proof (cases "getComponentDef cli")
  case (Inl e)
  then show ?thesis by (simp add: handle_componentError)
next
  case (Inr found)
  show ?thesis
  proof (cases found)
    case None
    with Inr show ?thesis by (simp add: handle_noComponent)
  next
    case (Some component)
    with Inr have comp: "getComponentDef cli = Inr (Some component)" by simp
    show ?thesis
    proof (cases "WorkloadType component = Consensus")
      case False
      with comp show ?thesis by (simp add: handle_otherWorkload)
    next
      case True
      show ?thesis
      proof (cases "getPodList cli")
        case (Inl e)
        with comp True show ?thesis by (simp add: handle_podListError)
      next
        case pods: (Inr pods)
        obtain w1 r where rec: "reconcileConsensusSetStatus D cli w component
            (ComponentLabel stsObj) pods = (w1, r)"
          by (cases "reconcileConsensusSetStatus D cli w component (ComponentLabel stsObj) pods")
            auto
        have d: "deletedPods w1 = deletedPods w"
          using reconcileConsensusSetStatus_deletedPods [OF rec] .
        show ?thesis
        proof (cases r)
          case (Inl e)
          with handle_statusError [OF comp True pods] rec d show ?thesis by simp
        next
          case (Inr u)
          with handle_notConverged [OF nc comp True pods] rec d show ?thesis by simp
        qed
      qed
    qed
  qed
qed

text \<open>
  Claim C9, amended. When the generation of the stateful set differs from its observed
  generation, or the number of pods differs from the desired replicas, the handler
  sends no delete, whatever else happens. If the component is a consensus component,
  the pods are listed without error and the status part returns without error, the
  handler returns \<open>(false, nil)\<close> in the world the status part has left: the status
  reconciliation has run, no plan is built or walked. For a missing component or one
  that is not a consensus component it returns \<open>(true, nil)\<close>. An error of the component
  fetch or of the pod list is returned as it is, and so is a failure of the status
  part: when the status has changed, an error of the status patch is returned after
  the patch has been sent, and after a successful patch the status part returns what
  the config propagation returns, which is the error of the config map list, or the
  error of the patch of the first listed config map when that patch fails.
\<close>

theorem not_converged_defers_plan:
  assumes nc: "Generation stsObj \<noteq> ObservedGeneration stsObj
      \<or> (\<exists>replicas. Replicas stsObj = Some replicas
            \<and> (\<forall>pods. getPodList cli = Inr pods \<longrightarrow> int (length pods) \<noteq> replicas))"
  shows "deletedPods (fst (handleConsensusSetUpdate D DefaultLeader cli w stsObj)) = deletedPods w
    \<and> (\<forall>component pods w1 u.
          getComponentDef cli = Inr (Some component) \<and> WorkloadType component = Consensus
          \<and> getPodList cli = Inr pods
          \<and> reconcileConsensusSetStatus D cli w component (ComponentLabel stsObj) pods
              = (w1, Inr u) \<longrightarrow>
          handleConsensusSetUpdate D DefaultLeader cli w stsObj = (w1, Inr False))
    \<and> (getComponentDef cli = Inr None \<longrightarrow>
          handleConsensusSetUpdate D DefaultLeader cli w stsObj = (w, Inr True))
    \<and> (\<forall>component.
          getComponentDef cli = Inr (Some component) \<and> WorkloadType component \<noteq> Consensus \<longrightarrow>
          handleConsensusSetUpdate D DefaultLeader cli w stsObj = (w, Inr True))
    \<and> (\<forall>e. getComponentDef cli = Inl e \<longrightarrow>
          handleConsensusSetUpdate D DefaultLeader cli w stsObj = (w, Inl e))
    \<and> (\<forall>component e.
          getComponentDef cli = Inr (Some component) \<and> WorkloadType component = Consensus
          \<and> getPodList cli = Inl e \<longrightarrow>
          handleConsensusSetUpdate D DefaultLeader cli w stsObj = (w, Inl e))
    \<and> (\<forall>component pods w1 e.
          getComponentDef cli = Inr (Some component) \<and> WorkloadType component = Consensus
          \<and> getPodList cli = Inr pods
          \<and> reconcileConsensusSetStatus D cli w component (ComponentLabel stsObj) pods
              = (w1, Inl e) \<longrightarrow>
          handleConsensusSetUpdate D DefaultLeader cli w stsObj = (w1, Inl e))
    \<and> (\<forall>component pods componentName new err.
          setConsensusSetStatusRoles D (initialConsensusSetStatus D) component pods = Inr new
          \<and> Some new \<noteq> clusterStatus w \<and> statusPatchError cli = Some err \<longrightarrow>
          reconcileConsensusSetStatus D cli w component componentName pods =
            (w\<lparr>statusPatches := statusPatches w @ [new]\<rparr>, Inl (Error err)))
    \<and> (\<forall>component pods componentName new.
          setConsensusSetStatusRoles D (initialConsensusSetStatus D) component pods = Inr new
          \<and> Some new \<noteq> clusterStatus w \<and> statusPatchError cli = None \<longrightarrow>
          reconcileConsensusSetStatus D cli w component componentName pods =
            updateConsensusRoleInfo cli
              (w\<lparr>statusPatches := statusPatches w @ [new], clusterStatus := Some new\<rparr>)
              component componentName pods)
    \<and> (\<forall>component pods componentName info e w'.
          consensusRoleInfo component pods [] [] = Inr info \<and> listConfigMaps cli = Inl e \<longrightarrow>
          updateConsensusRoleInfo cli w' component componentName pods = (w', Inl e))
    \<and> (\<forall>component pods componentName leader followers config configs err w'.
          consensusRoleInfo component pods [] [] = Inr (leader, followers)
          \<and> listConfigMaps cli = Inr (config # configs) \<and> Data config \<noteq> None
          \<and> configPatchError cli (setRoleInfo componentName leader followers config) = Some err
          \<longrightarrow>
          updateConsensusRoleInfo cli w' component componentName pods =
            (w'\<lparr>configPatches := configPatches w' @
                 [setRoleInfo componentName leader followers config]\<rparr>, Inl (Error err)))"
proof (intro conjI allI impI)
  show "deletedPods (fst (handleConsensusSetUpdate D DefaultLeader cli w stsObj)) = deletedPods w"
    using nc by (rule handle_notConverged_deletedPods)
next
  fix component pods w1 u
  assume "getComponentDef cli = Inr (Some component) \<and> WorkloadType component = Consensus
          \<and> getPodList cli = Inr pods
          \<and> reconcileConsensusSetStatus D cli w component (ComponentLabel stsObj) pods
              = (w1, Inr u)"
  then show "handleConsensusSetUpdate D DefaultLeader cli w stsObj = (w1, Inr False)"
    using handle_notConverged [OF nc] by blast
next
  assume "getComponentDef cli = Inr None"
  then show "handleConsensusSetUpdate D DefaultLeader cli w stsObj = (w, Inr True)"
    by (rule handle_noComponent)
next
  fix component
  assume "getComponentDef cli = Inr (Some component) \<and> WorkloadType component \<noteq> Consensus"
  then show "handleConsensusSetUpdate D DefaultLeader cli w stsObj = (w, Inr True)"
    using handle_otherWorkload by blast
next
  fix e
  assume "getComponentDef cli = Inl e"
  then show "handleConsensusSetUpdate D DefaultLeader cli w stsObj = (w, Inl e)"
    by (rule handle_componentError)
next
  fix component e
  assume "getComponentDef cli = Inr (Some component) \<and> WorkloadType component = Consensus
          \<and> getPodList cli = Inl e"
  then show "handleConsensusSetUpdate D DefaultLeader cli w stsObj = (w, Inl e)"
    using handle_podListError by blast
next
  fix component pods w1 e
  assume "getComponentDef cli = Inr (Some component) \<and> WorkloadType component = Consensus
          \<and> getPodList cli = Inr pods
          \<and> reconcileConsensusSetStatus D cli w component (ComponentLabel stsObj) pods
              = (w1, Inl e)"
  then show "handleConsensusSetUpdate D DefaultLeader cli w stsObj = (w1, Inl e)"
    using handle_statusError by blast
next
  fix component pods componentName new err
  assume "setConsensusSetStatusRoles D (initialConsensusSetStatus D) component pods = Inr new
          \<and> Some new \<noteq> clusterStatus w \<and> statusPatchError cli = Some err"
  then show "reconcileConsensusSetStatus D cli w component componentName pods =
            (w\<lparr>statusPatches := statusPatches w @ [new]\<rparr>, Inl (Error err))"
    using reconcile_patchError by blast
next
  fix component pods componentName new
  assume "setConsensusSetStatusRoles D (initialConsensusSetStatus D) component pods = Inr new
          \<and> Some new \<noteq> clusterStatus w \<and> statusPatchError cli = None"
  then show "reconcileConsensusSetStatus D cli w component componentName pods =
            updateConsensusRoleInfo cli
              (w\<lparr>statusPatches := statusPatches w @ [new], clusterStatus := Some new\<rparr>)
              component componentName pods"
    using reconcile_propagation by blast
next
  fix component pods componentName info e w'
  assume "consensusRoleInfo component pods [] [] = Inr info \<and> listConfigMaps cli = Inl e"
  then show "updateConsensusRoleInfo cli w' component componentName pods = (w', Inl e)"
    using updateConsensusRoleInfo_listError by blast
next
  fix component pods componentName leader followers config configs err w'
  assume "consensusRoleInfo component pods [] [] = Inr (leader, followers)
          \<and> listConfigMaps cli = Inr (config # configs) \<and> Data config \<noteq> None
          \<and> configPatchError cli (setRoleInfo componentName leader followers config) = Some err"
  then show "updateConsensusRoleInfo cli w' component componentName pods =
            (w'\<lparr>configPatches := configPatches w' @
                 [setRoleInfo componentName leader followers config]\<rparr>, Inl (Error err))"
    using updateConsensusRoleInfo_patchError by blast
qed

lemma exampleReconcile_pending:
  "reconcileConsensusSetStatus ''Unknown'' exampleClient exampleWorld exampleComponent
     (ComponentLabel examplePendingStatefulSet) examplePods = (exampleWorldAfter, Inr ())"
  by (simp add: reconcileConsensusSetStatus_def exampleNewStatus_eq exampleWorld_def
      exampleClient_def updateConsensusRoleInfo_def exampleRoleInfo exampleConfigMap_def
      exampleKeys exampleWorldAfter_def examplePendingStatefulSet_def exampleStatefulSet_def)

theorem not_converged_defers_plan_witness:
  "Generation examplePendingStatefulSet \<noteq> ObservedGeneration examplePendingStatefulSet
   \<and> handleConsensusSetUpdate ''Unknown'' exampleDefaultLeader exampleClient exampleWorld
        examplePendingStatefulSet = (exampleWorldAfter, Inr False)
   \<and> Replicas (exampleStatefulSet\<lparr>Replicas := Some 6\<rparr>) = Some 6
   \<and> int (length examplePods) \<noteq> 6
   \<and> handleConsensusSetUpdate ''Unknown'' exampleDefaultLeader exampleClient exampleWorld
        (exampleStatefulSet\<lparr>Replicas := Some 6\<rparr>) = (exampleWorldAfter, Inr False)
   \<and> deletedPods exampleWorldAfter = deletedPods exampleWorld
   \<and> getComponentDef exampleOtherClient = Inr None
   \<and> handleConsensusSetUpdate ''Unknown'' exampleDefaultLeader exampleOtherClient exampleWorld
        examplePendingStatefulSet = (exampleWorld, Inr True)
   \<and> statusPatchError exampleConflictClient = Some ''conflict''
   \<and> reconcileConsensusSetStatus ''Unknown'' exampleConflictClient exampleWorld
        exampleComponent ''mysql'' examplePods =
      (exampleWorld\<lparr>statusPatches := [exampleNewStatus]\<rparr>, Inl (Error ''conflict''))"
proof -
  have nc: "Generation examplePendingStatefulSet \<noteq> ObservedGeneration examplePendingStatefulSet"
    by (simp add: examplePendingStatefulSet_def exampleStatefulSet_def)
  have comp: "getComponentDef exampleClient = Inr (Some exampleComponent)"
    and wt: "WorkloadType exampleComponent = Consensus"
    and pods: "getPodList exampleClient = Inr examplePods"
    by (simp_all add: exampleClient_def exampleComponent_def)
  have len: "int (length examplePods) \<noteq> 6"
    by (simp add: examplePods_def)
  have label: "ComponentLabel (exampleStatefulSet\<lparr>Replicas := Some 6\<rparr>) =
      ComponentLabel examplePendingStatefulSet"
    by (simp add: examplePendingStatefulSet_def)
  have nc': "\<exists>replicas. Replicas (exampleStatefulSet\<lparr>Replicas := Some 6\<rparr>) = Some replicas
      \<and> (\<forall>pods. getPodList exampleClient = Inr pods \<longrightarrow> int (length pods) \<noteq> replicas)"
    using pods len by simp
  have none: "getComponentDef exampleOtherClient = Inr None"
    by (simp add: exampleOtherClient_def)
  have conflict: "statusPatchError exampleConflictClient = Some ''conflict''"
    by (simp add: exampleConflictClient_def)
  have changed: "Some exampleNewStatus \<noteq> clusterStatus exampleWorld"
    by (simp add: exampleWorld_def)
  note pending = not_converged_defers_plan [of examplePendingStatefulSet exampleClient
      "''Unknown''" exampleDefaultLeader exampleWorld, OF disjI1, OF nc]
  have first: "handleConsensusSetUpdate ''Unknown'' exampleDefaultLeader exampleClient exampleWorld
        examplePendingStatefulSet = (exampleWorldAfter, Inr False)"
    using pending [THEN conjunct2, THEN conjunct1, rule_format,
        of exampleComponent examplePods exampleWorldAfter "()"]
      comp wt pods exampleReconcile_pending
    by simp
  note short = not_converged_defers_plan [of "exampleStatefulSet\<lparr>Replicas := Some 6\<rparr>"
      exampleClient "''Unknown''" exampleDefaultLeader exampleWorld, OF disjI2, OF nc']
  have second: "handleConsensusSetUpdate ''Unknown'' exampleDefaultLeader exampleClient
      exampleWorld (exampleStatefulSet\<lparr>Replicas := Some 6\<rparr>) = (exampleWorldAfter, Inr False)"
    using short [THEN conjunct2, THEN conjunct1, rule_format,
        of exampleComponent examplePods exampleWorldAfter "()"]
      comp wt pods exampleReconcile_pending [folded label]
    by simp
  note other = not_converged_defers_plan [of examplePendingStatefulSet exampleOtherClient
      "''Unknown''" exampleDefaultLeader exampleWorld, OF disjI1, OF nc]
  have third: "handleConsensusSetUpdate ''Unknown'' exampleDefaultLeader exampleOtherClient
      exampleWorld examplePendingStatefulSet = (exampleWorld, Inr True)"
    using other [THEN conjunct2, THEN conjunct2, THEN conjunct1] none by simp
  note failing = not_converged_defers_plan [of examplePendingStatefulSet exampleConflictClient
      "''Unknown''" exampleDefaultLeader exampleWorld, OF disjI1, OF nc]
  have fourth: "reconcileConsensusSetStatus ''Unknown'' exampleConflictClient exampleWorld
        exampleComponent ''mysql'' examplePods =
      (exampleWorld\<lparr>statusPatches := statusPatches exampleWorld @ [exampleNewStatus]\<rparr>,
       Inl (Error ''conflict''))"
    using failing [THEN conjunct2, THEN conjunct2, THEN conjunct2, THEN conjunct2,
        THEN conjunct2, THEN conjunct2, THEN conjunct2, THEN conjunct1, rule_format,
        of exampleComponent examplePods exampleNewStatus "''conflict''" "''mysql''"]
      exampleNewStatus_eq changed conflict
    by simp
  from first second third fourth nc len none conflict show ?thesis
    by (simp add: exampleWorldAfter_def exampleWorld_def)
qed

text \<open>
  The claim as stated fails for a component that is missing or not a consensus
  component: the handler returns \<open>(true, nil)\<close> before it looks at the stateful set. It
  fails as well when the status patch fails: the handler returns that error.
\<close>

theorem not_converged_other_workload_counterexample:
  "Generation examplePendingStatefulSet \<noteq> ObservedGeneration examplePendingStatefulSet
   \<and> handleConsensusSetUpdate ''Unknown'' exampleDefaultLeader exampleOtherClient exampleWorld
        examplePendingStatefulSet = (exampleWorld, Inr True)
   \<and> handleConsensusSetUpdate ''Unknown'' exampleDefaultLeader exampleConflictClient exampleWorld
        examplePendingStatefulSet =
      (exampleWorld\<lparr>statusPatches := [exampleNewStatus]\<rparr>, Inl (Error ''conflict''))"
proof -
  have other: "handleConsensusSetUpdate ''Unknown'' exampleDefaultLeader exampleOtherClient
      exampleWorld examplePendingStatefulSet = (exampleWorld, Inr True)"
    by (simp add: handleConsensusSetUpdate_def exampleOtherClient_def exampleClient_def)
  have status: "reconcileConsensusSetStatus ''Unknown'' exampleConflictClient exampleWorld
      exampleComponent (ComponentLabel examplePendingStatefulSet) examplePods =
      (exampleWorld\<lparr>statusPatches := [exampleNewStatus]\<rparr>, Inl (Error ''conflict''))"
    by (simp add: reconcileConsensusSetStatus_def exampleNewStatus_eq exampleWorld_def
        exampleConflictClient_def exampleClient_def)
  have wt: "WorkloadType exampleComponent = Consensus"
    by (simp add: exampleComponent_def)
  have conflict: "handleConsensusSetUpdate ''Unknown'' exampleDefaultLeader exampleConflictClient
      exampleWorld examplePendingStatefulSet =
      (exampleWorld\<lparr>statusPatches := [exampleNewStatus]\<rparr>, Inl (Error ''conflict''))"
  proof -
    have "getComponentDef exampleConflictClient = Inr (Some exampleComponent)"
      and "getPodList exampleConflictClient = Inr examplePods"
      by (simp_all add: exampleConflictClient_def exampleClient_def)
    then show ?thesis
      by (simp add: handleConsensusSetUpdate_def wt status)
  qed
  show ?thesis
    using other conflict
    by (simp add: examplePendingStatefulSet_def exampleStatefulSet_def)
qed

section \<open>Properties of the config propagation\<close>













end
